theory Spec2Isabelle
  imports Complex_Main
begin

section \<open>Python values, errors and strings\<close>

text \<open>
  The model follows \<^verbatim>\<open>tom.py\<close>. In the two reconstructions Python floats are idealised as
  the reals (no rounding, no overflow, no NaN) and numpy's complex arrays as lists of rows
  over the complex numbers. The conversion from degrees to motor steps, and once more the
  frequencies of the two-qubit reconstruction, are modelled on IEEE doubles.
  Every \<^verbatim>\<open>raise\<close> of the source is a value of \<open>error\<close>; a function that may raise returns
  \<open>error + 'a\<close> with \<open>Inl\<close> for the exception.
\<close>

datatype error =
    FloatValueError
  | ValueError "string list"
  | ZeroDivisionError
  | KeyError string
  | RuntimeError nat
  | OverflowError
  | RoundValueError

text \<open>
  \<open>FloatValueError\<close> is what \<^verbatim>\<open>float(val)\<close> raises on a cell that is not a number,
  \<open>ValueError outcomes\<close> is \<^verbatim>\<open>ValueError(f"No total coincidence count for basis {outcomes}.")\<close>,
  \<open>RuntimeError idx\<close> is \<^verbatim>\<open>RuntimeError(f"Cannot set motor {motor_idx}")\<close>,
  \<open>OverflowError\<close> and \<open>RoundValueError\<close> are what \<^verbatim>\<open>round\<close> raises on an infinity and on NaN.
\<close>

text \<open>
  A string is a list of code points below 256. \<^verbatim>\<open>str.strip()\<close> removes the characters for
  which \<^verbatim>\<open>str.isspace()\<close> holds; below 256 these are the following twelve.
\<close>

definition py_isspace :: "char \<Rightarrow> bool" where
  "py_isspace c = (c \<in> set [CHR 0x09, CHR 0x0A, CHR 0x0B, CHR 0x0C, CHR 0x0D,
                              CHR 0x1C, CHR 0x1D, CHR 0x1E, CHR 0x1F, CHR '' '',
                              CHR 0x85, CHR 0xA0])"

definition strip :: "string \<Rightarrow> string" where
  "strip s = rev (dropWhile py_isspace (rev (dropWhile py_isspace s)))"

definition lower_char :: "char \<Rightarrow> char" where
  "lower_char c =
     (case map_of (zip ''ABCDEFGHIJKLMNOPQRSTUVWXYZ'' ''abcdefghijklmnopqrstuvwxyz'') c of
        Some d \<Rightarrow> d
      | None \<Rightarrow> c)"

definition lower :: "string \<Rightarrow> string" where
  "lower s = map lower_char s"

definition py_truediv :: "real \<Rightarrow> real \<Rightarrow> error + real" where
  "py_truediv a b = (if b = 0 then Inl ZeroDivisionError else Inr (a / b))"

section \<open>Reading the table of averages\<close>

text \<open>
  A row of the data frame, as \<^verbatim>\<open>calc_results\<close> reads it: the \<^verbatim>\<open>Position\<close> column (after
  \<^verbatim>\<open>str\<close>) and the column of averages (\<^verbatim>\<open>Avg_coinc\<close> for two qubits, \<^verbatim>\<open>Avg_ch1\<close> for one).
  A cell is a number, on which \<^verbatim>\<open>float(val)\<close> succeeds, or some text on which it raises.
  The marker NaN that \<^verbatim>\<open>pd.read_csv\<close> stores for an empty cell (and for the spellings of a
  missing value that it recognises) is a float that is not a real number: it is not a
  value of this type, and what the code does with it is outside this model.
\<close>

datatype cell = Number real | Garbage string

type_synonym row = "string \<times> cell"

fun py_float :: "cell \<Rightarrow> error + real" where
  "py_float (Number x) = Inr x"
| "py_float (Garbage s) = Inl FloatValueError"

text \<open>
  The loop over \<^verbatim>\<open>df.iterrows()\<close>: rows whose stripped position is not one of the
  experiment's positions are skipped, a later row overwrites an earlier one, and the
  exception of \<^verbatim>\<open>float(val)\<close> is caught and replaced by \<open>0.0\<close>.
\<close>

fun read_table :: "string list \<Rightarrow> row list \<Rightarrow> (string \<rightharpoonup> real) \<Rightarrow> (string \<rightharpoonup> real)" where
  "read_table positions [] pos_to_coinc = pos_to_coinc"
| "read_table positions ((p, val) # rows) pos_to_coinc =
     (let pos = strip p in
      if pos \<in> set positions then
        read_table positions rows
          (pos_to_coinc(pos \<mapsto> (case py_float val of Inr x \<Rightarrow> x | Inl e \<Rightarrow> 0)))
      else read_table positions rows pos_to_coinc)"

text \<open>\<^verbatim>\<open>C = lambda name: pos_to_coinc.get(name, 0.0)\<close>\<close>

definition C_of :: "(string \<rightharpoonup> real) \<Rightarrow> string \<Rightarrow> real" where
  "C_of pos_to_coinc name = (case pos_to_coinc name of Some v \<Rightarrow> v | None \<Rightarrow> 0)"

section \<open>Complex matrices and the diagnostics\<close>

type_synonym cmatrix = "complex list list"

definition smul :: "complex \<Rightarrow> cmatrix \<Rightarrow> cmatrix" where
  "smul c m = map (map ((*) c)) m"

definition madd :: "cmatrix \<Rightarrow> cmatrix \<Rightarrow> cmatrix" where
  "madd a b = map2 (map2 (+)) a b"

definition msub :: "cmatrix \<Rightarrow> cmatrix \<Rightarrow> cmatrix" where
  "msub a b = map2 (map2 (-)) a b"

definition conj_T :: "cmatrix \<Rightarrow> cmatrix" where
  "conj_T m = transpose (map (map cnj) m)"

definition matmul :: "cmatrix \<Rightarrow> cmatrix \<Rightarrow> cmatrix" where
  "matmul a b = map (\<lambda>r. map (\<lambda>c. sum_list (map2 (*) r c)) (transpose b)) a"

fun diag :: "cmatrix \<Rightarrow> complex list" where
  "diag [] = []"
| "diag (r # rs) = (case r of [] \<Rightarrow> [] | x # xs \<Rightarrow> x # diag (map tl rs))"

definition np_trace :: "cmatrix \<Rightarrow> complex" where
  "np_trace m = sum_list (diag m)"

definition np_max_abs :: "cmatrix \<Rightarrow> real" where
  "np_max_abs m = Max (set (concat (map (map cmod) m)))"

record results =
  rho :: cmatrix
  hermiticity :: real
  trace :: complex
  purity :: real

text \<open>The four lines after the matrix is assembled, the same in both variants.\<close>

definition diagnostics :: "cmatrix \<Rightarrow> results" where
  "diagnostics r =
     \<lparr> rho = r,
       hermiticity = np_max_abs (msub r (conj_T r)),
       trace = np_trace r,
       purity = Re (np_trace (matmul r r)) \<rparr>"

section \<open>Single-qubit reconstruction\<close>

definition SingleQubit_positions :: "string list" where
  "SingleQubit_positions = [''H'', ''V'', ''P'', ''M'', ''R'', ''L'']"

definition s_0 :: cmatrix where "s_0 = [[1, 0], [0, 1]]"
definition s_x :: cmatrix where "s_x = [[0, 1], [1, 0]]"
definition s_y :: cmatrix where "s_y = [[1, - \<i>], [\<i>, 1]]"
definition s_z :: cmatrix where "s_z = [[1, 0], [0, - 1]]"

text \<open>The three divisions, in the source's order \<open>TX\<close>, \<open>TY\<close>, \<open>TZ\<close>; each may raise.\<close>

definition SingleQubit_stokes :: "(string \<Rightarrow> real) \<Rightarrow> error + real \<times> real \<times> real" where
  "SingleQubit_stokes C =
     (case py_truediv (C ''P'' - C ''M'') (C ''P'' + C ''M'') of
        Inl e \<Rightarrow> Inl e
      | Inr TX \<Rightarrow>
     (case py_truediv (C ''R'' - C ''L'') (C ''R'' + C ''L'') of
        Inl e \<Rightarrow> Inl e
      | Inr TY \<Rightarrow>
     (case py_truediv (C ''H'' - C ''V'') (C ''H'' + C ''V'') of
        Inl e \<Rightarrow> Inl e
      | Inr TZ \<Rightarrow> Inr (TX, TY, TZ))))"

definition SingleQubit_rho :: "real \<Rightarrow> real \<Rightarrow> real \<Rightarrow> cmatrix" where
  "SingleQubit_rho TX TY TZ =
     smul (1 / 2)
       (madd (madd (madd (smul 1 s_0) (smul (of_real TX) s_x)) (smul (of_real TY) s_y))
             (smul (of_real TZ) s_z))"

definition SingleQubit_calc_results :: "row list \<Rightarrow> error + results" where
  "SingleQubit_calc_results table =
     (let pos_to_coinc = read_table SingleQubit_positions table Map.empty in
      case SingleQubit_stokes (C_of pos_to_coinc) of
        Inl e \<Rightarrow> Inl e
      | Inr (TX, TY, TZ) \<Rightarrow> Inr (diagnostics (SingleQubit_rho TX TY TZ)))"

section \<open>Two-qubit reconstruction\<close>

definition DoubleQubit_positions :: "string list" where
  "DoubleQubit_positions =
     [''HH'', ''HV'', ''VH'', ''VV'', ''PP'', ''PM'', ''MP'', ''MM'',
      ''RR'', ''RL'', ''LR'', ''LL'', ''HP'', ''HM'', ''VP'', ''VM'',
      ''HR'', ''HL'', ''VL'', ''VR'', ''PH'', ''MH'', ''PV'', ''MV'',
      ''RH'', ''LH'', ''LV'', ''RV'', ''PR'', ''PL'', ''MR'', ''ML'',
      ''RP'', ''LP'', ''RM'', ''LM'']"

definition groups :: "(string \<times> string list) list" where
  "groups =
     [(''HV'', [''HH'', ''HV'', ''VH'', ''VV'']),
      (''PM'', [''PP'', ''PM'', ''MP'', ''MM'']),
      (''RL'', [''RR'', ''RL'', ''LR'', ''LL'']),
      (''HP'', [''HP'', ''HM'', ''VP'', ''VM'']),
      (''HR'', [''HR'', ''HL'', ''VR'', ''VL'']),
      (''PH'', [''PH'', ''MH'', ''PV'', ''MV'']),
      (''RH'', [''RH'', ''LH'', ''LV'', ''RV'']),
      (''PR'', [''PR'', ''PL'', ''MR'', ''ML'']),
      (''RP'', [''RP'', ''LP'', ''RM'', ''LM''])]"

text \<open>
  The warning of the source is a plain string literal (it has no \<^verbatim>\<open>f\<close> prefix), so the
  same text is emitted for every position with a zero count.
\<close>

fun warn_zero :: "(string \<Rightarrow> real) \<Rightarrow> string list \<Rightarrow> string list" where
  "warn_zero C [] = []"
| "warn_zero C (out # outcomes) =
     (if C out = 0 then [''No coincidence for position {o}''] else []) @ warn_zero C outcomes"

fun store_freq ::
  "(string \<Rightarrow> real) \<Rightarrow> real \<Rightarrow> string list \<Rightarrow> (string \<rightharpoonup> real) \<Rightarrow> (string \<rightharpoonup> real)" where
  "store_freq C den [] freq = freq"
| "store_freq C den (out # outcomes) freq =
     store_freq C den outcomes (freq(lower out \<mapsto> C out / den))"

text \<open>
  The loop over \<^verbatim>\<open>groups.items()\<close>, threading the warnings emitted so far and the
  dictionary \<^verbatim>\<open>freq\<close>. The warnings emitted before a \<^verbatim>\<open>raise\<close> stay emitted.
\<close>

fun aggregate ::
  "(string \<Rightarrow> real) \<Rightarrow> (string \<times> string list) list \<Rightarrow> string list \<Rightarrow> (string \<rightharpoonup> real)
     \<Rightarrow> string list \<times> (error + (string \<rightharpoonup> real))" where
  "aggregate C [] w freq = (w, Inr freq)"
| "aggregate C ((name, outcomes) # gs) w freq =
     (let w' = w @ warn_zero C outcomes;
          den = sum_list (map C outcomes)
      in if den = 0 then (w', Inl (ValueError outcomes))
         else aggregate C gs w' (store_freq C den outcomes freq))"

record stokes =
  T00 :: real
  TZZ :: real
  TXX :: real
  TYY :: real
  TZ0 :: real
  T0Z :: real
  TX0 :: real
  T0X :: real
  TY0 :: real
  T0Y :: real
  TXZ :: real
  TZX :: real
  TXY :: real
  TYX :: real
  TZY :: real
  TYZ :: real

text \<open>
  The keys of \<^verbatim>\<open>freq\<close> in the order in which the Stokes formulas first read them; a read
  of an absent key raises \<^verbatim>\<open>KeyError\<close>, and the first absent key in this order is the one
  whose exception would leave the function.
\<close>

definition lookup_order :: "string list" where
  "lookup_order =
     [''hh'', ''hv'', ''vh'', ''vv'', ''pp'', ''pm'', ''mp'', ''mm'',
      ''rr'', ''rl'', ''lr'', ''ll'', ''hp'', ''hm'', ''vp'', ''vm'',
      ''hr'', ''hl'', ''vr'', ''vl'', ''ph'', ''mh'', ''pv'', ''mv'',
      ''rh'', ''lh'', ''rv'', ''lv'', ''pr'', ''pl'', ''mr'', ''ml'',
      ''rp'', ''lp'', ''rm'', ''lm'']"

fun first_missing :: "(string \<rightharpoonup> real) \<Rightarrow> string list \<Rightarrow> string option" where
  "first_missing freq [] = None"
| "first_missing freq (k # ks) = (if freq k = None then Some k else first_missing freq ks)"

definition stokes_formulas :: "(string \<Rightarrow> real) \<Rightarrow> stokes" where
  "stokes_formulas f =
     \<lparr> T00 = 1,
       TZZ = f ''hh'' - f ''hv'' - f ''vh'' + f ''vv'',
       TXX = f ''pp'' - f ''pm'' - f ''mp'' + f ''mm'',
       TYY = f ''rr'' - f ''rl'' - f ''lr'' + f ''ll'',
       TZ0 = (1 / 3) *
         ((f ''hp'' + f ''hm'' - f ''vp'' - f ''vm'') +
          (f ''hr'' + f ''hl'' - f ''vr'' - f ''vl'') +
          (f ''hh'' + f ''hv'' - f ''vh'' - f ''vv'')),
       T0Z = (1 / 3) *
         ((f ''ph'' + f ''mh'' - f ''pv'' - f ''mv'') +
          (f ''rh'' + f ''lh'' - f ''rv'' - f ''lv'') +
          (f ''hh'' + f ''hv'' - f ''vh'' - f ''vv'')),
       TX0 = (1 / 3) *
         ((f ''pp'' + f ''pm'' - f ''mp'' - f ''mm'') +
          (f ''pr'' + f ''pl'' - f ''mr'' - f ''ml'') +
          (f ''ph'' + f ''pv'' - f ''mh'' - f ''mv'')),
       T0X = (1 / 3) *
         ((f ''pp'' + f ''pm'' - f ''mp'' - f ''mm'') +
          (f ''rp'' + f ''lp'' - f ''rm'' - f ''lm'') +
          (f ''hp'' + f ''vp'' - f ''hm'' - f ''vm'')),
       TY0 = (1 / 3) *
         ((f ''rp'' + f ''rm'' - f ''lp'' - f ''lm'') +
          (f ''rr'' + f ''rl'' - f ''lr'' - f ''ll'') +
          (f ''rh'' + f ''rv'' - f ''lh'' - f ''lv'')),
       T0Y = (1 / 3) *
         ((f ''pr'' + f ''mr'' - f ''pl'' - f ''ml'') +
          (f ''rr'' + f ''lr'' - f ''rl'' - f ''ll'') +
          (f ''hr'' + f ''vr'' - f ''hl'' - f ''vl'')),
       TXZ = f ''hp'' - f ''hm'' - f ''vp'' + f ''vm'',
       TZX = f ''ph'' - f ''mh'' - f ''pv'' + f ''mv'',
       TXY = f ''hr'' - f ''hl'' - f ''vr'' + f ''vl'',
       TYX = f ''rh'' - f ''lh'' - f ''rv'' + f ''lv'',
       TZY = f ''rh'' - f ''lh'' - f ''lv'' + f ''rv'',
       TYZ = f ''hr'' - f ''hl'' - f ''vl'' + f ''vr'' \<rparr>"

definition DoubleQubit_stokes :: "(string \<rightharpoonup> real) \<Rightarrow> error + stokes" where
  "DoubleQubit_stokes freq =
     (case first_missing freq lookup_order of
        Some k \<Rightarrow> Inl (KeyError k)
      | None \<Rightarrow> Inr (stokes_formulas (\<lambda>k. the (freq k))))"

text \<open>The literal \<^verbatim>\<open>np.array([...], dtype=complex)\<close> of the source, entry by entry.\<close>

definition DoubleQubit_rho :: "stokes \<Rightarrow> cmatrix" where
  "DoubleQubit_rho s =
     (let t00 = complex_of_real (T00 s); tzz = complex_of_real (TZZ s);
          txx = complex_of_real (TXX s); tyy = complex_of_real (TYY s);
          tz0 = complex_of_real (TZ0 s); t0z = complex_of_real (T0Z s);
          tx0 = complex_of_real (TX0 s); t0x = complex_of_real (T0X s);
          ty0 = complex_of_real (TY0 s); t0y = complex_of_real (T0Y s);
          txz = complex_of_real (TXZ s); tzx = complex_of_real (TZX s);
          txy = complex_of_real (TXY s); tyx = complex_of_real (TYX s);
          tzy = complex_of_real (TZY s); tyz = complex_of_real (TYZ s)
      in smul (1 / 4)
        [[t00 + t0z + tz0 + tzz, t0x - \<i> * t0y - tzx - \<i> * tzy,
          tx0 + txz - \<i> * ty0 - \<i> * tyz, txx - \<i> * txy - \<i> * tyx - tyy],
         [t0x + \<i> * t0y + tzx + \<i> * tzy, t00 - t0z + tz0 - tzz,
          txx + \<i> * txy - \<i> * tyx + tyy, tx0 - txz - \<i> * ty0 + \<i> * tyz],
         [tx0 + txz + \<i> * ty0 + \<i> * tyz, txx - \<i> * txy + \<i> * tyx + tyy,
          t00 + t0z - tz0 - tzz, t0x - \<i> * t0y - tzx + \<i> * tzy],
         [txx + \<i> * txy + \<i> * tyx - tyy, tx0 - txz + \<i> * ty0 - \<i> * tyx,
          t0x + \<i> * t0y - tzx - \<i> * tzy, t00 - t0z - tz0 + tzz]])"

definition DoubleQubit_freq :: "row list \<Rightarrow> string list \<times> (error + (string \<rightharpoonup> real))" where
  "DoubleQubit_freq table =
     aggregate (C_of (read_table DoubleQubit_positions table Map.empty)) groups [] Map.empty"

definition DoubleQubit_calc_results :: "row list \<Rightarrow> string list \<times> (error + results)" where
  "DoubleQubit_calc_results table =
     (case DoubleQubit_freq table of
        (w, Inl e) \<Rightarrow> (w, Inl e)
      | (w, Inr freq) \<Rightarrow>
          (case DoubleQubit_stokes freq of
             Inl e \<Rightarrow> (w, Inl e)
           | Inr s \<Rightarrow> (w, Inr (diagnostics (DoubleQubit_rho s)))))"

section \<open>Rounding\<close>

text \<open>
  Python's \<^verbatim>\<open>round\<close> with one argument returns an integer and rounds a tie to the even
  neighbour (\<open>round(0.5) = 0\<close>, \<open>round(1.5) = 2\<close>); HOL's \<open>round\<close> rounds a tie upwards.
\<close>

definition py_round :: "real \<Rightarrow> int" where
  "py_round x =
     (let f = \<lfloor>x\<rfloor>; d = x - of_int f
      in if d < 1 / 2 then f
         else if 1 / 2 < d then f + 1
         else if even f then f else f + 1)"

subsection \<open>IEEE doubles\<close>

text \<open>
  The conversion from degrees to steps is about rounding, so it is modelled on doubles: a
  double is a real number (one that the format holds), an infinity or NaN; the sign of a
  zero is not modelled. \<open>binade x\<close> is the exponent of the binade of \<open>x\<close>, from \<open>-1022\<close> (the
  subnormal numbers share the spacing of the lowest normal binade) to \<open>1023\<close>, and the
  doubles of that binade are the multiples of \<open>2\<close> to the power \<open>binade x - 52\<close>. \<open>fl\<close> rounds
  to the nearest such multiple, a tie to the one with the even significand, and
  \<open>round_to_double\<close> lets a result beyond the largest double overflow to an infinity.
\<close>

datatype double = Finite real | PosInf | NegInf | NaN

fun binade_upto :: "nat \<Rightarrow> real \<Rightarrow> int" where
  "binade_upto 0 x = - 1022"
| "binade_upto (Suc n) x =
     (if 2 powi (int n - 1021) \<le> \<bar>x\<bar> then int n - 1021 else binade_upto n x)"

definition binade :: "real \<Rightarrow> int" where
  "binade x = binade_upto 2045 x"

definition fl :: "real \<Rightarrow> real" where
  "fl x = of_int (py_round (x / 2 powi (binade x - 52))) * 2 powi (binade x - 52)"

definition round_to_double :: "real \<Rightarrow> double" where
  "round_to_double x =
     (if 2 ^ 1024 \<le> \<bar>fl x\<bar> then (if 0 < x then PosInf else NegInf) else Finite (fl x))"

text \<open>The product of two doubles, correctly rounded.\<close>

fun double_mul :: "double \<Rightarrow> double \<Rightarrow> double" where
  "double_mul (Finite a) (Finite b) = round_to_double (a * b)"
| "double_mul NaN y = NaN"
| "double_mul x NaN = NaN"
| "double_mul PosInf (Finite b) = (if b = 0 then NaN else if 0 < b then PosInf else NegInf)"
| "double_mul NegInf (Finite b) = (if b = 0 then NaN else if 0 < b then NegInf else PosInf)"
| "double_mul (Finite a) PosInf = (if a = 0 then NaN else if 0 < a then PosInf else NegInf)"
| "double_mul (Finite a) NegInf = (if a = 0 then NaN else if 0 < a then NegInf else PosInf)"
| "double_mul PosInf PosInf = PosInf"
| "double_mul PosInf NegInf = NegInf"
| "double_mul NegInf PosInf = NegInf"
| "double_mul NegInf NegInf = PosInf"

text \<open>
  \<^verbatim>\<open>round(x)\<close> on a float: an integer for a finite \<open>x\<close>, \<^verbatim>\<open>OverflowError\<close> for an infinity and
  \<^verbatim>\<open>ValueError\<close> for NaN.
\<close>

fun round_builtin :: "double \<Rightarrow> error + int" where
  "round_builtin (Finite x) = Inr (py_round x)"
| "round_builtin PosInf = Inl OverflowError"
| "round_builtin NegInf = Inl OverflowError"
| "round_builtin NaN = Inl RoundValueError"

subsection \<open>The frequencies on doubles\<close>

text \<open>
  The reader and the frequency loop of \<^verbatim>\<open>DoubleQubit.calc_results\<close> once more, now on doubles,
  for what depends on rounding, overflow or NaN. A cell of the data frame is a float
  (\<^verbatim>\<open>pd.read_csv\<close> stores NaN for an empty cell) or a text that \<^verbatim>\<open>float\<close> rejects; \<^verbatim>\<open>float\<close>
  returns a float as it is. \<^verbatim>\<open>sum\<close> starts from \<open>0\<close> and adds from left to right, rounding
  every partial sum (the correction term that CPython 3.12 and later carry along is not
  modelled); \<^verbatim>\<open>==\<close> is false on NaN; \<^verbatim>\<open>/\<close> raises on a zero divisor and is the IEEE quotient
  otherwise.
\<close>

fun double_add :: "double \<Rightarrow> double \<Rightarrow> double" where
  "double_add (Finite a) (Finite b) = round_to_double (a + b)"
| "double_add NaN y = NaN"
| "double_add x NaN = NaN"
| "double_add PosInf NegInf = NaN"
| "double_add NegInf PosInf = NaN"
| "double_add PosInf y = PosInf"
| "double_add NegInf y = NegInf"
| "double_add x PosInf = PosInf"
| "double_add x NegInf = NegInf"

definition py_sum :: "double list \<Rightarrow> double" where
  "py_sum xs = foldl double_add (Finite 0) xs"

fun double_div :: "double \<Rightarrow> double \<Rightarrow> double" where
  "double_div (Finite a) (Finite b) =
     (if b = 0 then (if a = 0 then NaN else if 0 < a then PosInf else NegInf)
      else round_to_double (a / b))"
| "double_div NaN y = NaN"
| "double_div x NaN = NaN"
| "double_div (Finite a) y = Finite 0"
| "double_div PosInf (Finite b) = (if 0 \<le> b then PosInf else NegInf)"
| "double_div NegInf (Finite b) = (if 0 \<le> b then NegInf else PosInf)"
| "double_div x y = NaN"

definition double_truediv :: "double \<Rightarrow> double \<Rightarrow> error + double" where
  "double_truediv x y = (if y = Finite 0 then Inl ZeroDivisionError else Inr (double_div x y))"

datatype frame_cell = FloatCell double | TextCell string

type_synonym frame_row = "string \<times> frame_cell"

fun float_of_cell :: "frame_cell \<Rightarrow> error + double" where
  "float_of_cell (FloatCell x) = Inr x"
| "float_of_cell (TextCell s) = Inl FloatValueError"

fun read_table_double ::
  "string list \<Rightarrow> frame_row list \<Rightarrow> (string \<rightharpoonup> double) \<Rightarrow> (string \<rightharpoonup> double)" where
  "read_table_double positions [] pos_to_coinc = pos_to_coinc"
| "read_table_double positions ((p, val) # rows) pos_to_coinc =
     (let pos = strip p in
      if pos \<in> set positions then
        read_table_double positions rows
          (pos_to_coinc(pos \<mapsto> (case float_of_cell val of Inr x \<Rightarrow> x | Inl e \<Rightarrow> Finite 0)))
      else read_table_double positions rows pos_to_coinc)"

definition C_double :: "(string \<rightharpoonup> double) \<Rightarrow> string \<Rightarrow> double" where
  "C_double pos_to_coinc name = (case pos_to_coinc name of Some v \<Rightarrow> v | None \<Rightarrow> Finite 0)"

fun warn_zero_double :: "(string \<Rightarrow> double) \<Rightarrow> string list \<Rightarrow> string list" where
  "warn_zero_double C [] = []"
| "warn_zero_double C (out # outcomes) =
     (if C out = Finite 0 then [''No coincidence for position {o}''] else [])
       @ warn_zero_double C outcomes"

fun store_freq_double ::
  "(string \<Rightarrow> double) \<Rightarrow> double \<Rightarrow> string list \<Rightarrow> (string \<rightharpoonup> double)
     \<Rightarrow> error + (string \<rightharpoonup> double)" where
  "store_freq_double C den [] freq = Inr freq"
| "store_freq_double C den (out # outcomes) freq =
     (case double_truediv (C out) den of
        Inl e \<Rightarrow> Inl e
      | Inr f \<Rightarrow> store_freq_double C den outcomes (freq(lower out \<mapsto> f)))"

fun aggregate_double ::
  "(string \<Rightarrow> double) \<Rightarrow> (string \<times> string list) list \<Rightarrow> string list \<Rightarrow> (string \<rightharpoonup> double)
     \<Rightarrow> string list \<times> (error + (string \<rightharpoonup> double))" where
  "aggregate_double C [] w freq = (w, Inr freq)"
| "aggregate_double C ((name, outcomes) # gs) w freq =
     (let w' = w @ warn_zero_double C outcomes;
          den = py_sum (map C outcomes)
      in if den = Finite 0 then (w', Inl (ValueError outcomes))
         else (case store_freq_double C den outcomes freq of
                 Inl e \<Rightarrow> (w', Inl e)
               | Inr freq' \<Rightarrow> aggregate_double C gs w' freq'))"

definition DoubleQubit_freq_double ::
  "frame_row list \<Rightarrow> string list \<times> (error + (string \<rightharpoonup> double))" where
  "DoubleQubit_freq_double table =
     aggregate_double (C_double (read_table_double DoubleQubit_positions table Map.empty))
       groups [] Map.empty"

section \<open>Degrees to motor steps\<close>

text \<open>
  \<^verbatim>\<open>STEPS_PER_REV = 4800\<close> is an integer and \<^verbatim>\<open>DEG_TO_STEP = STEPS_PER_REV / 360.0\<close> is the
  quotient rounded to a double.
\<close>

definition STEPS_PER_REV :: int where
  "STEPS_PER_REV = 4800"

definition DEG_TO_STEP :: double where
  "DEG_TO_STEP = round_to_double (of_int STEPS_PER_REV / 360)"

section \<open>The collector object\<close>

record 'a measurement =
  ch1 :: "'a list"
  ch2 :: "'a list"
  coinc :: "'a list"

text \<open>
  The fields of \<^verbatim>\<open>BaseQubit\<close>. The type \<open>'a\<close> is the type of a sample; \<^verbatim>\<open>data\<close> is a
  \<^verbatim>\<open>defaultdict\<close>, total on position names, and the three \<^verbatim>\<open>_current_*\<close> slots are
  \<open>None\<close> when empty.
\<close>

record 'a BaseQubit =
  n_samples :: nat
  wait_time :: real
  data :: "string \<Rightarrow> 'a measurement"
  current_ch1 :: "'a option"
  current_ch2 :: "'a option"
  current_coinc :: "'a option"

definition empty_measurement_dict :: "'a measurement" where
  "empty_measurement_dict = \<lparr> ch1 = [], ch2 = [], coinc = [] \<rparr>"

definition BaseQubit_init :: "nat \<Rightarrow> real \<Rightarrow> 'a BaseQubit" where
  "BaseQubit_init n w =
     \<lparr> n_samples = n, wait_time = w, data = (\<lambda>pos. empty_measurement_dict),
       current_ch1 = None, current_ch2 = None, current_coinc = None \<rparr>"

text \<open>
  \<^verbatim>\<open>round(angle * DEG_TO_STEP)\<close>; the angle is a float (an integer angle is converted to one
  by the multiplication).
\<close>

definition angle_to_steps :: "'a BaseQubit \<Rightarrow> double \<Rightarrow> error + int" where
  "angle_to_steps self angle = round_builtin (double_mul angle DEG_TO_STEP)"

section \<open>Moving the motors and waiting for them\<close>












section \<open>The latch and the acquisition loops\<close>

definition data_coinc :: int where "data_coinc = 8"
definition data_channel1 :: int where "data_channel1 = 9"
definition data_channel2 :: int where "data_channel2 = 10"

text \<open>
  \<^verbatim>\<open>data_callback(channel, count, index, data, meta)\<close> on the collector of the logic
  instance (\<open>None\<close> when no collector is assigned); \<open>d\<close> is \<^verbatim>\<open>data[0]\<close>.
\<close>

definition data_callback :: "int \<Rightarrow> int \<Rightarrow> 'a \<Rightarrow> 'a BaseQubit option \<Rightarrow> 'a BaseQubit option" where
  "data_callback channel count d collector =
     (case collector of
        None \<Rightarrow> None
      | Some c \<Rightarrow>
          if count < 1 then Some c
          else if channel = data_channel1 then Some (c\<lparr>current_ch1 := Some d\<rparr>)
          else if channel = data_channel2 then Some (c\<lparr>current_ch2 := Some d\<rparr>)
          else if channel = data_coinc then Some (c\<lparr>current_coinc := Some d\<rparr>)
          else Some c)"

text \<open>
  One repetition of the \<^verbatim>\<open>for\<close> loop of \<^verbatim>\<open>DoubleQubit.measure_position\<close>, when the
  acquisition thread runs: \<open>None\<close> while the inner \<^verbatim>\<open>while\<close> still waits, otherwise the
  three appends and the three clears.
\<close>

definition DoubleQubit_repetition :: "string \<Rightarrow> 'a BaseQubit \<Rightarrow> 'a BaseQubit option" where
  "DoubleQubit_repetition pos_name self =
     (case (current_ch1 self, current_ch2 self, current_coinc self) of
        (Some v1, Some v2, Some vc) \<Rightarrow>
          Some (self\<lparr> data := (data self)(pos_name :=
                          \<lparr> ch1 = ch1 (data self pos_name) @ [v1],
                            ch2 = ch2 (data self pos_name) @ [v2],
                            coinc = coinc (data self pos_name) @ [vc] \<rparr>),
                      current_ch1 := None, current_ch2 := None, current_coinc := None \<rparr>)
      | _ \<Rightarrow> None)"

text \<open>
  One repetition of \<^verbatim>\<open>SingleQubit.measure_position\<close>: it waits for \<^verbatim>\<open>_current_ch1\<close>,
  appends it, and sets \<^verbatim>\<open>_current_ch2\<close> to \<^verbatim>\<open>None\<close>.
\<close>

definition SingleQubit_repetition :: "string \<Rightarrow> 'a BaseQubit \<Rightarrow> 'a BaseQubit option" where
  "SingleQubit_repetition pos_name self =
     (case current_ch1 self of
        Some v1 \<Rightarrow>
          Some (self\<lparr> data := (data self)(pos_name :=
                          (data self pos_name)\<lparr> ch1 := ch1 (data self pos_name) @ [v1] \<rparr>),
                      current_ch2 := None \<rparr>)
      | None \<Rightarrow> None)"

text \<open>
  An interleaving of the two actors: the hardware thread delivers a callback, or the
  acquisition thread runs one repetition attempt.
\<close>

datatype 'a event = Callback int int 'a | Acquire

text \<open>
  \<^verbatim>\<open>measure_position\<close> after \<^verbatim>\<open>set_components\<close> (which touches neither the slots nor
  \<^verbatim>\<open>data\<close>), run against a schedule: \<open>n\<close> repetitions are still to do; a repetition that
  still waits leaves \<open>n\<close> as it is. The result is the collector and the repetitions left.
\<close>

fun measure_position ::
  "(string \<Rightarrow> 'a BaseQubit \<Rightarrow> 'a BaseQubit option) \<Rightarrow> string \<Rightarrow> nat \<Rightarrow> 'a event list
     \<Rightarrow> 'a BaseQubit \<Rightarrow> 'a BaseQubit \<times> nat" where
  "measure_position repetition pos_name n [] self = (self, n)"
| "measure_position repetition pos_name 0 (e # es) self = (self, 0)"
| "measure_position repetition pos_name (Suc n) (Callback channel count d # es) self =
     measure_position repetition pos_name (Suc n) es (the (data_callback channel count d (Some self)))"
| "measure_position repetition pos_name (Suc n) (Acquire # es) self =
     (case repetition pos_name self of
        None \<Rightarrow> measure_position repetition pos_name (Suc n) es self
      | Some self' \<Rightarrow> measure_position repetition pos_name n es self')"

definition DoubleQubit_measure_position ::
  "string \<Rightarrow> 'a event list \<Rightarrow> 'a BaseQubit \<Rightarrow> 'a BaseQubit \<times> nat" where
  "DoubleQubit_measure_position pos_name schedule self =
     measure_position DoubleQubit_repetition pos_name (n_samples self) schedule self"

definition SingleQubit_measure_position ::
  "string \<Rightarrow> 'a event list \<Rightarrow> 'a BaseQubit \<Rightarrow> 'a BaseQubit \<times> nat" where
  "SingleQubit_measure_position pos_name schedule self =
     measure_position SingleQubit_repetition pos_name (n_samples self) schedule self"

section \<open>Reference definitions and concrete tables\<close>

text \<open>
  The standard Pauli matrices and the textbook expansions the reconstruction is compared
  with; these follow the specification, not the source.
\<close>

definition sigma_0 :: cmatrix where "sigma_0 = [[1, 0], [0, 1]]"
definition sigma_x :: cmatrix where "sigma_x = [[0, 1], [1, 0]]"
definition sigma_y :: cmatrix where "sigma_y = [[0, - \<i>], [\<i>, 0]]"
definition sigma_z :: cmatrix where "sigma_z = [[1, 0], [0, - 1]]"

definition pauli_rho1 :: "real \<Rightarrow> real \<Rightarrow> real \<Rightarrow> cmatrix" where
  "pauli_rho1 TX TY TZ =
     smul (1 / 2)
       (madd (madd (madd sigma_0 (smul (of_real TX) sigma_x)) (smul (of_real TY) sigma_y))
             (smul (of_real TZ) sigma_z))"

text \<open>The Kronecker product of two matrices given as lists of rows.\<close>

definition kron :: "cmatrix \<Rightarrow> cmatrix \<Rightarrow> cmatrix" where
  "kron a b = concat (map (\<lambda>ra. map (\<lambda>rb. concat (map (\<lambda>x. map ((*) x) rb) ra)) b) a)"

definition pauli_rho2 :: "stokes \<Rightarrow> cmatrix" where
  "pauli_rho2 s =
     smul (1 / 4)
       (foldr madd
          [smul (of_real (T0X s)) (kron sigma_0 sigma_x), smul (of_real (T0Y s)) (kron sigma_0 sigma_y),
           smul (of_real (T0Z s)) (kron sigma_0 sigma_z), smul (of_real (TX0 s)) (kron sigma_x sigma_0),
           smul (of_real (TXX s)) (kron sigma_x sigma_x), smul (of_real (TXY s)) (kron sigma_x sigma_y),
           smul (of_real (TXZ s)) (kron sigma_x sigma_z), smul (of_real (TY0 s)) (kron sigma_y sigma_0),
           smul (of_real (TYX s)) (kron sigma_y sigma_x), smul (of_real (TYY s)) (kron sigma_y sigma_y),
           smul (of_real (TYZ s)) (kron sigma_y sigma_z), smul (of_real (TZ0 s)) (kron sigma_z sigma_0),
           smul (of_real (TZX s)) (kron sigma_z sigma_x), smul (of_real (TZY s)) (kron sigma_z sigma_y),
           smul (of_real (TZZ s)) (kron sigma_z sigma_z)]
          (smul (of_real (T00 s)) (kron sigma_0 sigma_0)))"

text \<open>
  The correlation of two axes from the four frequencies of one basis: both outcomes
  positive, first positive and second negative, first negative and second positive, both
  negative.
\<close>

definition correlation :: "(string \<Rightarrow> real) \<Rightarrow> string \<Rightarrow> string \<Rightarrow> string \<Rightarrow> string \<Rightarrow> real" where
  "correlation f pp pm mp mm = f pp - f pm - f mp + f mm"

text \<open>
  A table as \<^verbatim>\<open>save_csv\<close> writes it: one row for each position, in the order of
  \<^verbatim>\<open>positions\<close>, with a numeric average.
\<close>

definition table_of :: "string list \<Rightarrow> (string \<Rightarrow> real) \<Rightarrow> row list" where
  "table_of positions avg = map (\<lambda>p. (p, Number (avg p))) positions"

definition table_H :: "real \<Rightarrow> row list" where
  "table_H k =
     [(''H'', Number k), (''V'', Number 0), (''P'', Number (k / 2)), (''M'', Number (k / 2)),
      (''R'', Number (k / 2)), (''L'', Number (k / 2))]"

definition table_R3 :: "row list" where
  "table_R3 =
     [(''H'', Number 1), (''V'', Number 1), (''P'', Number 1), (''M'', Number 1),
      (''R'', Number 3), (''L'', Number 1)]"

text \<open>Averages with an all-zero basis.\<close>

definition zero_PM :: "string \<Rightarrow> real" where
  "zero_PM p = (if p \<in> set [''PP'', ''PM'', ''MP'', ''MM''] then 0 else 1)"

definition zero_RL :: "string \<Rightarrow> real" where
  "zero_RL p = (if p \<in> set [''R'', ''L''] then 0 else 1)"

text \<open>A table whose first cell is text that \<^verbatim>\<open>float\<close> rejects and whose position has a leading blank.\<close>

definition table_garbage :: "row list" where
  "table_garbage = [('' HH'', Garbage ''12 counts''), (''HV'', Number 2)]"
text \<open>
  The Stokes parameters \<^verbatim>\<open>calc_results\<close> computes on the way (they are local variables of
  the source and not part of its result).
\<close>

definition DoubleQubit_stokes_of_table :: "row list \<Rightarrow> error + stokes" where
  "DoubleQubit_stokes_of_table table =
     (case DoubleQubit_freq table of
        (w, Inl e) \<Rightarrow> Inl e
      | (w, Inr freq) \<Rightarrow> DoubleQubit_stokes freq)"

text \<open>Averages 1 everywhere, except for one setting with average 3.\<close>

definition avg_PH3 :: "string \<Rightarrow> real" where
  "avg_PH3 p = (if p = ''PH'' then 3 else 1)"

definition avg_RH3 :: "string \<Rightarrow> real" where
  "avg_RH3 p = (if p = ''RH'' then 3 else 1)"

text \<open>The frequency table of \<^verbatim>\<open>calc_results\<close>, read as the source reads it (\<^verbatim>\<open>freq[key]\<close>).\<close>

definition DoubleQubit_frequencies :: "row list \<Rightarrow> error + (string \<Rightarrow> real)" where
  "DoubleQubit_frequencies table = map_sum id (\<lambda>freq k. the (freq k)) (snd (DoubleQubit_freq table))"

definition stokes_PH3 :: stokes where
  "stokes_PH3 =
     \<lparr> T00 = 1, TZZ = 0, TXX = 0, TYY = 0, TZ0 = 0, T0Z = 1 / 9, TX0 = 1 / 9, T0X = 0,
       TY0 = 0, T0Y = 0, TXZ = 0, TZX = 1 / 3, TXY = 0, TYX = 0, TZY = 0, TYZ = 0 \<rparr>"




text \<open>A data frame with one row for each of the given positions, every cell a float.\<close>

definition frame_of :: "string list \<Rightarrow> (string \<Rightarrow> double) \<Rightarrow> frame_row list" where
  "frame_of positions avg = map (\<lambda>p. (p, FloatCell (avg p))) positions"

text \<open>
  The data frame of a file in which the four cells of the basis HH, HV, VH, VV are empty
  (\<^verbatim>\<open>pd.read_csv\<close> stores NaN for them) and every other average is 2.
\<close>

definition frame_empty_HV :: "frame_row list" where
  "frame_empty_HV =
     frame_of DoubleQubit_positions
       (\<lambda>p. if p \<in> set [''HH'', ''HV'', ''VH'', ''VV''] then NaN else Finite 2)"

section \<open>Rounding to an integer and to a double\<close>

lemma py_round_error: "\<bar>real_of_int (py_round x) - x\<bar> \<le> 1 / 2"
proof -
  have "of_int \<lfloor>x\<rfloor> \<le> x" "x < of_int \<lfloor>x\<rfloor> + 1" by linarith+
  then show ?thesis unfolding py_round_def Let_def by auto
qed

lemma py_round_lower: "\<lfloor>x\<rfloor> \<le> py_round x"
  by (simp add: py_round_def Let_def)

lemma py_round_upper: "py_round x \<le> \<lfloor>x\<rfloor> + 1"
  by (simp add: py_round_def Let_def)

lemma py_round_mono:
  assumes "x \<le> y"
  shows "py_round x \<le> py_round y"
proof (cases "\<lfloor>x\<rfloor> = \<lfloor>y\<rfloor>")
  case True
  with assms show ?thesis
    unfolding py_round_def Let_def by auto
next
  case False
  with floor_mono [OF assms] have "\<lfloor>x\<rfloor> + 1 \<le> \<lfloor>y\<rfloor>" by linarith
  with py_round_upper [of x] py_round_lower [of y] show ?thesis by linarith
qed

lemma py_round_ties_to_even:
  "py_round (1 / 2) = 0" "py_round (3 / 2) = 2" "py_round (5 / 2) = 2" "py_round (- 1 / 2) = 0"
  by (simp_all add: py_round_def Let_def)

lemma py_round_of_int: "py_round (of_int k) = k"
  by (simp add: py_round_def Let_def)

lemma py_round_nonneg:
  assumes "0 \<le> x"
  shows "0 \<le> py_round x"
  using py_round_mono [OF assms] py_round_of_int [of 0] by simp

lemma py_round_tie_even:
  assumes "\<bar>real_of_int (py_round x) - x\<bar> = 1 / 2"
  shows "even (py_round x)"
proof -
  have f: "of_int \<lfloor>x\<rfloor> \<le> x" "x < of_int \<lfloor>x\<rfloor> + 1" by linarith+
  show ?thesis
  proof (cases "x - of_int \<lfloor>x\<rfloor> = 1 / 2")
    case True
    then show ?thesis by (simp add: py_round_def Let_def)
  next
    case False
    with f assms show ?thesis
      unfolding py_round_def Let_def by (auto split: if_splits)
  qed
qed

lemma py_round_unique:
  assumes "\<bar>real_of_int k - x\<bar> < 1 / 2 \<or> (\<bar>real_of_int k - x\<bar> = 1 / 2 \<and> even k)"
  shows "py_round x = k"
proof -
  let ?r = "py_round x"
  from py_round_error [of x] have e: "\<bar>real_of_int ?r - x\<bar> \<le> 1 / 2" .
  show ?thesis
  proof (rule ccontr)
    assume ne: "?r \<noteq> k"
    from assms have k: "\<bar>real_of_int k - x\<bar> \<le> 1 / 2" by auto
    from e k have "\<bar>real_of_int ?r - real_of_int k\<bar> \<le> 1" by linarith
    then have "\<bar>?r - k\<bar> \<le> 1" by linarith
    with ne have d: "?r = k + 1 \<or> ?r = k - 1" by linarith
    have both: "\<bar>real_of_int ?r - x\<bar> = 1 / 2" "\<bar>real_of_int k - x\<bar> = 1 / 2"
    proof -
      from d have "real_of_int ?r = real_of_int k + 1 \<or> real_of_int ?r = real_of_int k - 1"
        by auto
      with e k show "\<bar>real_of_int ?r - x\<bar> = 1 / 2" "\<bar>real_of_int k - x\<bar> = 1 / 2"
        by linarith+
    qed
    from py_round_tie_even [OF both(1)] have "even ?r" .
    moreover from assms both(2) have "even k" by auto
    ultimately show False using d by auto
  qed
qed

lemma py_round_uminus: "py_round (- x) = - py_round x"
proof (rule py_round_unique)
  let ?r = "py_round x"
  have eq: "\<bar>real_of_int (- ?r) - (- x)\<bar> = \<bar>real_of_int ?r - x\<bar>" by simp
  show "\<bar>real_of_int (- ?r) - (- x)\<bar> < 1 / 2
      \<or> (\<bar>real_of_int (- ?r) - (- x)\<bar> = 1 / 2 \<and> even (- ?r))"
  proof (cases "\<bar>real_of_int ?r - x\<bar> = 1 / 2")
    case True
    with py_round_tie_even [OF True] eq show ?thesis by simp
  next
    case False
    with py_round_error [of x] have "\<bar>real_of_int ?r - x\<bar> < 1 / 2" by linarith
    with eq show ?thesis by simp
  qed
qed

lemma binade_upto_range: "- 1022 \<le> binade_upto n x \<and> binade_upto n x \<le> int n - 1022"
  by (induction n) auto

lemma binade_upto_lower:
  assumes "- 1022 < binade_upto n x"
  shows "2 powi (binade_upto n x) \<le> \<bar>x\<bar>"
  using assms by (induction n) (auto split: if_splits)

lemma binade_upto_upper:
  assumes "binade_upto n x < int n - 1022"
  shows "\<bar>x\<bar> < 2 powi (binade_upto n x + 1)"
  using assms
proof (induction n)
  case 0
  then show ?case by simp
next
  case (Suc n)
  show ?case
  proof (cases "2 powi (int n - 1021) \<le> \<bar>x\<bar>")
    case True
    with Suc.prems show ?thesis by simp
  next
    case False
    then have eq: "binade_upto (Suc n) x = binade_upto n x" by simp
    show ?thesis
    proof (cases "binade_upto n x < int n - 1022")
      case True
      from Suc.IH [OF True] eq show ?thesis by simp
    next
      case top: False
      with binade_upto_range [of n x] have "binade_upto n x = int n - 1022" by linarith
      with eq have e1: "binade_upto (Suc n) x + 1 = int n - 1021" by simp
      from False have "\<bar>x\<bar> < 2 powi (int n - 1021)" by simp
      then show ?thesis by (simp only: e1)
    qed
  qed
qed

lemma binade_range: "- 1022 \<le> binade x" "binade x \<le> 1023"
  using binade_upto_range [of 2045 x] by (simp_all add: binade_def)

lemma binade_lower:
  assumes "- 1022 < binade x"
  shows "2 powi (binade x) \<le> \<bar>x\<bar>"
  using binade_upto_lower [of 2045 x] assms by (simp add: binade_def)

lemma binade_upper:
  assumes "binade x < 1023"
  shows "\<bar>x\<bar> < 2 powi (binade x + 1)"
  using binade_upto_upper [of 2045 x] assms by (simp add: binade_def)


lemma binade_eq:
  assumes "- 1022 \<le> e" and "e \<le> 1023" and "2 powi e \<le> \<bar>x\<bar>" and "\<bar>x\<bar> < 2 powi (e + 1)"
  shows "binade x = e"
proof (rule ccontr)
  assume ne: "binade x \<noteq> e"
  show False
  proof (cases "binade x < e")
    case True
    with assms(2) have "binade x < 1023" by simp
    from binade_upper [OF this] have "\<bar>x\<bar> < 2 powi (binade x + 1)" .
    also from True have "(2::real) powi (binade x + 1) \<le> 2 powi e"
      by (intro power_int_increasing) simp_all
    finally show False using assms(3) by simp
  next
    case False
    with ne have gt: "e < binade x" by simp
    with assms(1) have "- 1022 < binade x" by simp
    from binade_lower [OF this] have "2 powi (binade x) \<le> \<bar>x\<bar>" .
    moreover from gt have "(2::real) powi (e + 1) \<le> 2 powi (binade x)"
      by (intro power_int_increasing) simp_all
    ultimately show False using assms(4) by simp
  qed
qed

lemma binade_subnormal:
  assumes "\<bar>x\<bar> < 2 powi (- 1021)"
  shows "binade x = - 1022"
proof (rule ccontr)
  assume "binade x \<noteq> - 1022"
  with binade_range(1) [of x] have gt: "- 1022 < binade x" by simp
  from binade_lower [OF gt] have "2 powi (binade x) \<le> \<bar>x\<bar>" .
  moreover from gt have "(2::real) powi (- 1021) \<le> 2 powi (binade x)"
    by (intro power_int_increasing) simp_all
  ultimately show False using assms by simp
qed

lemma binade_uminus: "binade (- x) = binade x"
proof -
  have "binade_upto n (- x) = binade_upto n x" for n
    by (induction n) simp_all
  then show ?thesis by (simp add: binade_def)
qed

lemma binade_mono:
  assumes "\<bar>x\<bar> \<le> \<bar>y\<bar>"
  shows "binade x \<le> binade y"
proof (rule ccontr)
  assume "\<not> binade x \<le> binade y"
  then have lt: "binade y < binade x" by simp
  with binade_range(1) [of y] have "- 1022 < binade x" by simp
  from binade_lower [OF this] have lo: "2 powi (binade x) \<le> \<bar>x\<bar>" .
  from lt binade_range(2) [of x] have "binade y < 1023" by simp
  from binade_upper [OF this] have "\<bar>y\<bar> < 2 powi (binade y + 1)" .
  also from lt have "(2::real) powi (binade y + 1) \<le> 2 powi (binade x)"
    by (intro power_int_increasing) simp_all
  finally show False using lo assms by simp
qed

lemma fl_error: "\<bar>fl x - x\<bar> \<le> 2 powi (binade x - 53)"
proof -
  let ?u = "(2::real) powi (binade x - 52)"
  have u: "0 < ?u" by (simp add: zero_less_power_int)
  have half: "?u / 2 = 2 powi (binade x - 53)"
    using power_int_minus_mult [of "2::real" "binade x - 52"] by (simp add: algebra_simps)
  have "fl x - x = (real_of_int (py_round (x / ?u)) - x / ?u) * ?u"
    using u by (simp add: fl_def algebra_simps)
  then have "\<bar>fl x - x\<bar> = \<bar>real_of_int (py_round (x / ?u)) - x / ?u\<bar> * ?u"
    using u by (simp add: abs_mult)
  also have "\<dots> \<le> 1 / 2 * ?u"
    using py_round_error [of "x / ?u"] u by (intro mult_right_mono) simp_all
  finally show ?thesis using half by simp
qed

lemma fl_error_rel: "\<bar>fl x - x\<bar> \<le> \<bar>x\<bar> / 2 ^ 53 + 2 powi (- 1075)"
proof (cases "- 1022 < binade x")
  case True
  have "(2::real) powi (binade x - 53) = 2 powi (binade x) / 2 powi 53"
    by (rule power_int_diff) simp
  also have "\<dots> \<le> \<bar>x\<bar> / 2 powi 53"
    using binade_lower [OF True] by (intro divide_right_mono) (simp_all add: zero_le_power_int)
  finally have "(2::real) powi (binade x - 53) \<le> \<bar>x\<bar> / 2 ^ 53" by simp
  moreover have "(0::real) \<le> 2 powi (- 1075)" by (simp add: zero_le_power_int)
  ultimately show ?thesis using fl_error [of x] by linarith
next
  case False
  with binade_range(1) [of x] have "binade x = - 1022" by simp
  with fl_error [of x] have "\<bar>fl x - x\<bar> \<le> 2 powi (- 1075)" by simp
  moreover have "0 \<le> \<bar>x\<bar> / 2 ^ 53" by simp
  ultimately show ?thesis by linarith
qed

lemma fl_uminus: "fl (- x) = - fl x"
  by (simp add: fl_def binade_uminus py_round_uminus)

lemma fl_nonneg:
  assumes "0 \<le> x"
  shows "0 \<le> fl x"
proof -
  have "0 \<le> x / 2 powi (binade x - 52)" using assms by (simp add: zero_le_power_int)
  from py_round_nonneg [OF this] show ?thesis by (simp add: fl_def zero_le_power_int)
qed

lemma fl_binade_upper:
  assumes "0 \<le> x" and "binade x < 1023"
  shows "fl x \<le> 2 powi (binade x + 1)"
proof -
  let ?u = "(2::real) powi (binade x - 52)"
  have u: "0 < ?u" by (simp add: zero_less_power_int)
  have top: "(2::real) powi (binade x + 1) = 2 ^ 53 * ?u"
    using power_int_add [of "2::real" 53 "binade x - 52"] by (simp add: ac_simps)
  from binade_upper [OF assms(2)] assms(1) have "x < 2 ^ 53 * ?u" using top by simp
  with u have "x / ?u \<le> real_of_int (2 ^ 53)" by (simp add: pos_divide_le_eq)
  from py_round_mono [OF this] have "py_round (x / ?u) \<le> 2 ^ 53"
    by (simp only: py_round_of_int)
  then have "real_of_int (py_round (x / ?u)) \<le> real_of_int (2 ^ 53)"
    by (simp only: of_int_le_iff)
  then have "real_of_int (py_round (x / ?u)) \<le> 2 ^ 53" by simp
  with u have "real_of_int (py_round (x / ?u)) * ?u \<le> 2 ^ 53 * ?u"
    by (intro mult_right_mono) simp_all
  then show ?thesis by (simp only: fl_def top)
qed

lemma fl_binade_lower:
  assumes "0 \<le> x" and "- 1022 < binade x"
  shows "2 powi (binade x) \<le> fl x"
proof -
  let ?u = "(2::real) powi (binade x - 52)"
  have u: "0 < ?u" by (simp add: zero_less_power_int)
  have bot: "(2::real) powi (binade x) = 2 ^ 52 * ?u"
    using power_int_add [of "2::real" 52 "binade x - 52"] by simp
  from binade_lower [OF assms(2)] assms(1) have "2 ^ 52 * ?u \<le> x" using bot by simp
  with u have "real_of_int (2 ^ 52) \<le> x / ?u" by (simp add: pos_le_divide_eq)
  from py_round_mono [OF this] have "2 ^ 52 \<le> py_round (x / ?u)"
    by (simp only: py_round_of_int)
  then have "real_of_int (2 ^ 52) \<le> real_of_int (py_round (x / ?u))"
    by (simp only: of_int_le_iff)
  then have "2 ^ 52 \<le> real_of_int (py_round (x / ?u))" by simp
  with u have "2 ^ 52 * ?u \<le> real_of_int (py_round (x / ?u)) * ?u"
    by (intro mult_right_mono) simp_all
  then show ?thesis by (simp only: fl_def bot)
qed

lemma fl_mono_nonneg:
  assumes "0 \<le> x" and "x \<le> y"
  shows "fl x \<le> fl y"
proof -
  from assms have y: "0 \<le> y" and ab: "\<bar>x\<bar> \<le> \<bar>y\<bar>" by simp_all
  from binade_mono [OF ab] have le: "binade x \<le> binade y" .
  show ?thesis
  proof (cases "binade x = binade y")
    case True
    let ?u = "(2::real) powi (binade y - 52)"
    have u: "0 < ?u" by (simp add: zero_less_power_int)
    from assms(2) u have "x / ?u \<le> y / ?u" by (simp add: divide_right_mono)
    from py_round_mono [OF this]
    have "real_of_int (py_round (x / ?u)) \<le> real_of_int (py_round (y / ?u))" by simp
    with u have "real_of_int (py_round (x / ?u)) * ?u \<le> real_of_int (py_round (y / ?u)) * ?u"
      by (intro mult_right_mono) simp_all
    with True show ?thesis by (simp add: fl_def)
  next
    case False
    with le have lt: "binade x < binade y" by simp
    with binade_range(2) [of y] have "binade x < 1023" by simp
    from fl_binade_upper [OF assms(1) this] have "fl x \<le> 2 powi (binade x + 1)" .
    also from lt have "(2::real) powi (binade x + 1) \<le> 2 powi (binade y)"
      by (intro power_int_increasing) simp_all
    also from lt binade_range(1) [of x] have "- 1022 < binade y" by simp
    from fl_binade_lower [OF y this] have "2 powi (binade y) \<le> fl y" .
    finally show ?thesis .
  qed
qed

lemma fl_mono:
  assumes "x \<le> y"
  shows "fl x \<le> fl y"
proof (cases "0 \<le> x")
  case True
  from fl_mono_nonneg [OF True assms] show ?thesis .
next
  case False
  show ?thesis
  proof (cases "0 \<le> y")
    case True
    from False have "0 \<le> - x" by simp
    from fl_nonneg [OF this] have "fl x \<le> 0" by (simp add: fl_uminus)
    with fl_nonneg [OF True] show ?thesis by linarith
  next
    case neg: False
    then have "0 \<le> - y" by simp
    moreover from assms have "- y \<le> - x" by simp
    ultimately have "fl (- y) \<le> fl (- x)" by (rule fl_mono_nonneg)
    then show ?thesis by (simp add: fl_uminus)
  qed
qed

lemma fl_eval:
  assumes "- 1022 \<le> e" and "e \<le> 1023" and "2 powi e \<le> \<bar>x\<bar>" and "\<bar>x\<bar> < 2 powi (e + 1)"
  shows "fl x = of_int (py_round (x / 2 powi (e - 52))) * 2 powi (e - 52)"
  by (simp add: fl_def binade_eq [OF assms])

lemma round_to_double_finite:
  assumes "\<bar>x\<bar> \<le> 2 ^ 1000"
  shows "round_to_double x = Finite (fl x)"
proof -
  have "\<bar>fl x\<bar> \<le> \<bar>x\<bar> + \<bar>fl x - x\<bar>" by linarith
  also have "\<dots> \<le> \<bar>x\<bar> + (\<bar>x\<bar> / 2 ^ 53 + 2 powi (- 1075))"
    using fl_error_rel [of x] by linarith
  also have "\<dots> \<le> 2 ^ 1000 + (2 ^ 1000 / 2 ^ 53 + 2 powi (- 1075))"
    using assms by (intro add_mono divide_right_mono) simp_all
  also have "\<dots> < 2 ^ 1024" by (simp add: power_int_minus_divide)
  finally show ?thesis by (simp add: round_to_double_def)
qed

lemma DEG_TO_STEP_value: "DEG_TO_STEP = Finite (7505999378950827 / 2 ^ 49)"
proof -
  have "fl (4800 / 360) = 7505999378950827 / 2 ^ 49"
    by (subst fl_eval [of 3]) (simp_all add: py_round_def Let_def power_int_minus_divide)
  moreover have "round_to_double (4800 / 360) = Finite (fl (4800 / 360))"
    by (rule round_to_double_finite) simp
  ultimately show ?thesis by (simp add: DEG_TO_STEP_def STEPS_PER_REV_def)
qed

lemma angle_to_steps_finite:
  assumes "\<bar>angle\<bar> \<le> 2 ^ 900"
  shows "angle_to_steps self (Finite angle)
     = Inr (py_round (fl (angle * (7505999378950827 / 2 ^ 49))))"
proof -
  have "\<bar>angle * (7505999378950827 / 2 ^ 49)\<bar> = \<bar>angle\<bar> * (7505999378950827 / 2 ^ 49)"
    by (simp add: abs_mult)
  also have "\<dots> \<le> 2 ^ 900 * (7505999378950827 / 2 ^ 49)"
    using assms by (intro mult_right_mono) simp_all
  also have "\<dots> \<le> 2 ^ 1000" by simp
  finally have "round_to_double (angle * (7505999378950827 / 2 ^ 49))
      = Finite (fl (angle * (7505999378950827 / 2 ^ 49)))"
    by (rule round_to_double_finite)
  then show ?thesis by (simp add: angle_to_steps_def DEG_TO_STEP_value)
qed

lemma angle_to_steps_projections:
  "angle_to_steps self (Finite 0) = Inr 0" "angle_to_steps self (Finite 45) = Inr 600"
  "angle_to_steps self (Finite 90) = Inr 1200" "angle_to_steps self (Finite 135) = Inr 1800"
proof -
  have "fl (0 * (7505999378950827 / 2 ^ 49)) = 0"
    by (simp add: fl_def py_round_def Let_def)
  then show "angle_to_steps self (Finite 0) = Inr 0"
    by (subst angle_to_steps_finite) (simp_all add: py_round_def Let_def)
  have "fl (45 * (7505999378950827 / 2 ^ 49)) = 600"
    by (subst fl_eval [of 9]) (simp_all add: py_round_def Let_def power_int_minus_divide)
  then show "angle_to_steps self (Finite 45) = Inr 600"
    by (subst angle_to_steps_finite) (simp_all add: py_round_def Let_def)
  have "fl (90 * (7505999378950827 / 2 ^ 49)) = 1200"
    by (subst fl_eval [of 10]) (simp_all add: py_round_def Let_def power_int_minus_divide)
  then show "angle_to_steps self (Finite 90) = Inr 1200"
    by (subst angle_to_steps_finite) (simp_all add: py_round_def Let_def)
  have "fl (135 * (7505999378950827 / 2 ^ 49)) = 1800"
    by (subst fl_eval [of 10]) (simp_all add: py_round_def Let_def power_int_minus_divide)
  then show "angle_to_steps self (Finite 135) = Inr 1800"
    by (subst angle_to_steps_finite) (simp_all add: py_round_def Let_def)
qed

text \<open>
  Claim C8 does not hold for every angle. \<^verbatim>\<open>DEG_TO_STEP\<close> is the double
  \<open>7505999378950827 / 2\<^sup>4\<^sup>9\<close> (13.333333333333334), and the product with the angle is rounded
  to a double before \<^verbatim>\<open>round\<close> is applied. At the angle \<open>10\<^sup>1\<^sup>7\<close>, which is a double, the doubles
  near the product are 256 apart: the routine returns 1333333333333333504, more than 170
  units above the exact target \<open>10\<^sup>1\<^sup>7 * 4800 / 360\<close>.
\<close>

theorem angle_to_steps_far_off_at_1e17:
  "angle_to_steps (BaseQubit_init 100 5 :: nat BaseQubit) (Finite (10 ^ 17))
     = Inr 1333333333333333504
   \<and> 170 < \<bar>real_of_int 1333333333333333504 - 10 ^ 17 * real_of_int STEPS_PER_REV / 360\<bar>"
proof -
  have "fl (10 ^ 17 * (7505999378950827 / 2 ^ 49)) = 1333333333333333504"
    by (subst fl_eval [of 60]) (simp_all add: py_round_def Let_def)
  then have "angle_to_steps (BaseQubit_init 100 5 :: nat BaseQubit) (Finite (10 ^ 17))
      = Inr 1333333333333333504"
    by (subst angle_to_steps_finite) (simp_all add: py_round_def Let_def)
  then show ?thesis by (simp add: STEPS_PER_REV_def)
qed

text \<open>
  Claim C8, amended. For every finite angle of at most \<open>2 * 10\<^sup>1\<^sup>4\<close> degrees in absolute
  value, the step count \<^verbatim>\<open>round(angle * DEG_TO_STEP)\<close> is returned and lies within one device
  unit of the exact target \<open>angle * STEPS_PER_REV / 360\<close>. The conversion is monotonic
  wherever it returns: a larger angle never gives a smaller step count. It is
  deterministic: the result depends on the angle and the fixed constant only, not on the
  collector object. An infinite angle raises \<^verbatim>\<open>OverflowError\<close> and NaN raises \<^verbatim>\<open>ValueError\<close>.
\<close>

theorem angle_to_steps_within_unit_in_range:
  "(\<bar>angle\<bar> \<le> 2 * 10 ^ 14 \<longrightarrow>
      (\<exists>steps. angle_to_steps self (Finite angle) = Inr steps
         \<and> \<bar>real_of_int steps - angle * real_of_int STEPS_PER_REV / 360\<bar> \<le> 1))
   \<and> (a \<le> b \<longrightarrow> angle_to_steps self (Finite a) = Inr m
         \<longrightarrow> angle_to_steps self (Finite b) = Inr n \<longrightarrow> m \<le> n)
   \<and> angle_to_steps self x = angle_to_steps self' x
   \<and> angle_to_steps self PosInf = Inl OverflowError
   \<and> angle_to_steps self NegInf = Inl OverflowError
   \<and> angle_to_steps self NaN = Inl RoundValueError"
proof (intro conjI impI)
  let ?D = "7505999378950827 / 2 ^ 49 :: real"
  assume r: "\<bar>angle\<bar> \<le> 2 * 10 ^ 14"
  let ?p = "angle * ?D"
  from r have "\<bar>angle\<bar> \<le> 2 ^ 900" by simp
  from angle_to_steps_finite [OF this]
  have s: "angle_to_steps self (Finite angle) = Inr (py_round (fl ?p))" .
  have p: "\<bar>?p\<bar> = \<bar>angle\<bar> * ?D" by (simp add: abs_mult)
  from r have "\<bar>angle\<bar> * ?D \<le> 2 * 10 ^ 14 * ?D" by (intro mult_right_mono) simp_all
  with p have pb: "\<bar>?p\<bar> \<le> 2 * 10 ^ 14 * ?D" by simp
  have "\<bar>fl ?p - ?p\<bar> \<le> \<bar>?p\<bar> / 2 ^ 53 + 2 powi (- 1075)" by (rule fl_error_rel)
  also have "\<dots> \<le> 2 * 10 ^ 14 * ?D / 2 ^ 53 + 2 powi (- 1075)"
    using pb by (intro add_mono divide_right_mono) simp_all
  also have "\<dots> \<le> 31 / 100" by (simp add: power_int_minus_divide)
  finally have e1: "\<bar>fl ?p - ?p\<bar> \<le> 31 / 100" .
  have d: "?p - angle * real_of_int STEPS_PER_REV / 360 = angle * (1 / (3 * 2 ^ 49))"
    by (simp add: STEPS_PER_REV_def algebra_simps)
  have "\<bar>?p - angle * real_of_int STEPS_PER_REV / 360\<bar> = \<bar>angle * (1 / (3 * 2 ^ 49))\<bar>"
    by (simp only: d)
  also have "\<dots> = \<bar>angle\<bar> * (1 / (3 * 2 ^ 49))" by (simp add: abs_mult)
  also have "\<dots> \<le> 2 * 10 ^ 14 * (1 / (3 * 2 ^ 49))"
    using r by (intro mult_right_mono) simp_all
  also have "\<dots> \<le> 12 / 100" by simp
  finally have e2: "\<bar>?p - angle * real_of_int STEPS_PER_REV / 360\<bar> \<le> 12 / 100" .
  from py_round_error [of "fl ?p"] e1 e2
  have "\<bar>real_of_int (py_round (fl ?p)) - angle * real_of_int STEPS_PER_REV / 360\<bar> \<le> 1"
    by linarith
  with s show "\<exists>steps. angle_to_steps self (Finite angle) = Inr steps
         \<and> \<bar>real_of_int steps - angle * real_of_int STEPS_PER_REV / 360\<bar> \<le> 1"
    by simp
next
  let ?D = "7505999378950827 / 2 ^ 49 :: real"
  assume ab: "a \<le> b" and ma: "angle_to_steps self (Finite a) = Inr m"
    and nb: "angle_to_steps self (Finite b) = Inr n"
  from ma have m: "m = py_round (fl (a * ?D))"
    by (auto simp add: angle_to_steps_def DEG_TO_STEP_value round_to_double_def split: if_splits)
  from nb have n: "n = py_round (fl (b * ?D))"
    by (auto simp add: angle_to_steps_def DEG_TO_STEP_value round_to_double_def split: if_splits)
  from ab have "a * ?D \<le> b * ?D" by (intro mult_right_mono) simp_all
  from py_round_mono [OF fl_mono [OF this]] m n show "m \<le> n" by simp
next
  show "angle_to_steps self x = angle_to_steps self' x" by (simp add: angle_to_steps_def)
next
  show "angle_to_steps self PosInf = Inl OverflowError"
    by (simp add: angle_to_steps_def DEG_TO_STEP_value)
next
  show "angle_to_steps self NegInf = Inl OverflowError"
    by (simp add: angle_to_steps_def DEG_TO_STEP_value)
next
  show "angle_to_steps self NaN = Inl RoundValueError"
    by (simp add: angle_to_steps_def DEG_TO_STEP_value)
qed

theorem angle_to_steps_within_unit_in_range_witness:
  "\<bar>90 :: real\<bar> \<le> 2 * 10 ^ 14
   \<and> angle_to_steps (BaseQubit_init 100 5 :: nat BaseQubit) (Finite 90) = Inr 1200
   \<and> \<bar>real_of_int 1200 - 90 * real_of_int STEPS_PER_REV / 360\<bar> \<le> 1
   \<and> (45 :: real) \<le> 90
   \<and> angle_to_steps (BaseQubit_init 100 5 :: nat BaseQubit) (Finite 45) = Inr 600
   \<and> (600 :: int) \<le> 1200"
proof -
  let ?self = "BaseQubit_init 100 5 :: nat BaseQubit"
  note t = angle_to_steps_within_unit_in_range [of 90 ?self 45 90 600 1200 NaN ?self]
  have h: "\<bar>90 :: real\<bar> \<le> 2 * 10 ^ 14" "(45 :: real) \<le> 90" by simp_all
  have v: "angle_to_steps ?self (Finite 90) = Inr 1200" "angle_to_steps ?self (Finite 45) = Inr 600"
    by (rule angle_to_steps_projections)+
  from t h(1) v(1) have "\<bar>real_of_int 1200 - 90 * real_of_int STEPS_PER_REV / 360\<bar> \<le> 1"
    by simp
  moreover from t h(2) v have "(600 :: int) \<le> 1200" by blast
  ultimately show ?thesis using h v by (intro conjI)
qed

lemma read_table_absent:
  "name \<notin> strip ` fst ` set table \<Longrightarrow> read_table positions table m name = m name"
  by (induction table arbitrary: m) (auto simp: Let_def)

lemma read_table_append:
  "read_table positions (xs @ ys) m = read_table positions ys (read_table positions xs m)"
  by (induction xs arbitrary: m) (auto simp: Let_def)

lemma read_table_not_position:
  "name \<notin> set positions \<Longrightarrow> read_table positions table m name = m name"
  by (induction table arbitrary: m) (auto simp: Let_def)

lemma C_of_absent:
  assumes "name \<notin> strip ` fst ` set table"
  shows "C_of (read_table positions table Map.empty) name = 0"
  using read_table_absent [OF assms, of positions Map.empty] by (simp add: C_of_def)

lemma C_of_garbage:
  assumes "table = rows @ (p, Garbage s) # rest" "strip p = name" "name \<notin> strip ` fst ` set rest"
  shows "C_of (read_table positions table Map.empty) name = 0"
proof -
  let ?m = "read_table positions rows Map.empty"
  have "read_table positions table Map.empty name = read_table positions [(p, Garbage s)] ?m name"
    using read_table_absent [OF assms(3)] by (simp add: assms(1) read_table_append Let_def)
  also have "\<dots> = (if name \<in> set positions then Some 0 else ?m name)"
    by (simp add: assms(2) Let_def)
  finally have eq: "read_table positions table Map.empty name =
      (if name \<in> set positions then Some 0 else ?m name)" .
  show ?thesis
  proof (cases "name \<in> set positions")
    case True
    with eq show ?thesis by (simp add: C_of_def)
  next
    case False
    with eq show ?thesis by (simp add: C_of_def read_table_not_position)
  qed
qed

lemma store_freq_other:
  "k \<notin> lower ` set g \<Longrightarrow> store_freq C den g freq k = freq k"
  by (induction g arbitrary: freq) auto

lemma store_freq_hit:
  "distinct (map lower g) \<Longrightarrow> out \<in> set g \<Longrightarrow> store_freq C den g freq (lower out) = Some (C out / den)"
proof (induction g arbitrary: freq)
  case Nil
  then show ?case by simp
next
  case (Cons a g)
  show ?case
  proof (cases "out = a")
    case True
    from Cons.prems(1) have "lower a \<notin> lower ` set g" by simp
    then show ?thesis by (simp add: True store_freq_other)
  next
    case False
    with Cons show ?thesis by simp
  qed
qed

lemma store_freq_dom: "dom (store_freq C den g freq) = dom freq \<union> lower ` set g"
  by (induction g arbitrary: freq) auto

lemma aggregate_zero_den:
  assumes "(name, g) \<in> set gs" "sum_list (map C g) = 0"
  shows "\<exists>w' g'. g' \<in> snd ` set gs \<and> sum_list (map C g') = 0
           \<and> aggregate C gs w freq = (w', Inl (ValueError g'))"
  using assms
proof (induction gs arbitrary: w freq)
  case Nil
  then show ?case by simp
next
  case (Cons a gs)
  obtain n0 g0 where a: "a = (n0, g0)" by (cases a)
  show ?case
  proof (cases "sum_list (map C g0) = 0")
    case True
    then show ?thesis by (auto simp: a Let_def)
  next
    case False
    with Cons.prems a have "(name, g) \<in> set gs" by auto
    from Cons.IH [OF this Cons.prems(2)]
    obtain w' g' where "g' \<in> snd ` set gs" "sum_list (map C g') = 0"
      "aggregate C gs (w @ warn_zero C g0) (store_freq C (sum_list (map C g0)) g0 freq)
         = (w', Inl (ValueError g'))"
      by blast
    with False show ?thesis by (auto simp: a Let_def)
  qed
qed

lemma aggregate_error:
  "aggregate C gs w freq = (w', Inl e) \<Longrightarrow>
     \<exists>g \<in> snd ` set gs. e = ValueError g \<and> sum_list (map C g) = 0"
proof (induction gs arbitrary: w freq)
  case Nil
  then show ?case by simp
next
  case (Cons a gs)
  obtain n0 g0 where a: "a = (n0, g0)" by (cases a)
  from Cons show ?case
    by (auto simp: a Let_def split: if_splits)
qed

lemma aggregate_ok:
  "\<forall>(n, g) \<in> set gs. sum_list (map C g) \<noteq> 0 \<Longrightarrow> \<exists>w' freq'. aggregate C gs w freq = (w', Inr freq')"
proof (induction gs arbitrary: w freq)
  case Nil
  then show ?case by simp
next
  case (Cons a gs)
  obtain n0 g0 where a: "a = (n0, g0)" by (cases a)
  from Cons show ?case by (simp add: a Let_def)
qed

lemma aggregate_other:
  "aggregate C gs w freq = (w', Inr freq') \<Longrightarrow> k \<notin> lower ` set (concat (map snd gs)) \<Longrightarrow> freq' k = freq k"
proof (induction gs arbitrary: w freq)
  case Nil
  then show ?case by simp
next
  case (Cons a gs)
  obtain n0 g0 where a: "a = (n0, g0)" by (cases a)
  from Cons.prems have nz: "sum_list (map C g0) \<noteq> 0"
    and rest: "aggregate C gs (w @ warn_zero C g0) (store_freq C (sum_list (map C g0)) g0 freq) = (w', Inr freq')"
    by (auto simp: a Let_def split: if_splits)
  from Cons.prems(2) have k1: "k \<notin> lower ` set g0" and k2: "k \<notin> lower ` set (concat (map snd gs))"
    by (auto simp: a)
  from Cons.IH [OF rest k2] store_freq_other [OF k1] show ?case by simp
qed

lemma aggregate_dom:
  "aggregate C gs w freq = (w', Inr freq') \<Longrightarrow> dom freq' = dom freq \<union> lower ` set (concat (map snd gs))"
proof (induction gs arbitrary: w freq)
  case Nil
  then show ?case by simp
next
  case (Cons a gs)
  obtain n0 g0 where a: "a = (n0, g0)" by (cases a)
  from Cons.prems have rest: "aggregate C gs (w @ warn_zero C g0) (store_freq C (sum_list (map C g0)) g0 freq) = (w', Inr freq')"
    by (auto simp: a Let_def split: if_splits)
  from Cons.IH [OF rest] show ?case
    by (auto simp: a store_freq_dom)
qed

lemma aggregate_freq:
  assumes "aggregate C gs w freq = (w', Inr freq')"
    and "distinct (map lower (concat (map snd gs)))"
    and "(n, g) \<in> set gs" and "out \<in> set g"
  shows "freq' (lower out) = Some (C out / sum_list (map C g))"
  using assms
proof (induction gs arbitrary: w freq)
  case Nil
  then show ?case by simp
next
  case (Cons a gs)
  obtain n0 g0 where a: "a = (n0, g0)" by (cases a)
  let ?f = "store_freq C (sum_list (map C g0)) g0 freq"
  from Cons.prems(1) have rest: "aggregate C gs (w @ warn_zero C g0) ?f = (w', Inr freq')"
    by (auto simp: a Let_def split: if_splits)
  from Cons.prems(2) have d0: "distinct (map lower g0)"
    and d1: "distinct (map lower (concat (map snd gs)))"
    and d2: "lower ` set g0 \<inter> lower ` set (concat (map snd gs)) = {}"
    by (auto simp: a)
  show ?case
  proof (cases "(n, g) \<in> set gs")
    case True
    from Cons.IH [OF rest d1 True Cons.prems(4)] show ?thesis .
  next
    case False
    with Cons.prems(3) a have g: "g = g0" by simp
    with Cons.prems(4) d2 have "lower out \<notin> lower ` set (concat (map snd gs))" by blast
    from aggregate_other [OF rest this] store_freq_hit [OF d0, of out] Cons.prems(4) g
    show ?thesis by simp
  qed
qed

lemma sum_list_normalised:
  fixes C :: "'a \<Rightarrow> real"
  assumes "sum_list (map C g) \<noteq> 0"
  shows "sum_list (map (\<lambda>out. C out / sum_list (map C g)) g) = 1"
proof -
  have "sum_list (map (\<lambda>out. C out / d) g) = sum_list (map C g) / d" for d :: real
    by (induction g) (simp_all add: add_divide_distrib)
  with assms show ?thesis by simp
qed

lemma groups_distinct: "distinct (map lower (concat (map snd groups)))"
  by (simp add: groups_def lower_def lower_char_def)

lemma groups_keys: "set lookup_order \<subseteq> lower ` set (concat (map snd groups))"
  by (simp add: groups_def lookup_order_def lower_def lower_char_def)

lemma first_missing_None: "set ks \<subseteq> dom freq \<Longrightarrow> first_missing freq ks = None"
  by (induction ks) auto

lemma first_missing_Some: "first_missing freq ks = Some k \<Longrightarrow> k \<in> set ks \<and> freq k = None"
  by (induction ks) (auto split: if_splits)

lemma DoubleQubit_stokes_ok:
  assumes "DoubleQubit_freq table = (w, Inr freq)"
  shows "DoubleQubit_stokes freq = Inr (stokes_formulas (\<lambda>k. the (freq k)))"
proof -
  from aggregate_dom [OF assms [unfolded DoubleQubit_freq_def]]
  have "dom freq = lower ` set (concat (map snd groups))" by simp
  with groups_keys have "set lookup_order \<subseteq> dom freq" by simp
  then show ?thesis by (simp add: DoubleQubit_stokes_def first_missing_None)
qed

lemma SingleQubit_zero_pair:
  assumes "C ''P'' + C ''M'' = 0 \<or> C ''R'' + C ''L'' = 0 \<or> C ''H'' + C ''V'' = 0"
  shows "SingleQubit_stokes C = Inl ZeroDivisionError"
  using assms by (auto simp: SingleQubit_stokes_def py_truediv_def split: sum.splits)

lemma SingleQubit_stokes_error:
  "SingleQubit_stokes C = Inl e \<Longrightarrow> e = ZeroDivisionError"
  by (auto simp: SingleQubit_stokes_def py_truediv_def split: sum.splits if_splits)

lemma read_table_rows:
  assumes "\<forall>p \<in> set ps. strip p = p \<and> p \<in> set positions"
  shows "read_table positions (table_of ps avg) m q = (if q \<in> set ps then Some (avg q) else m q)"
  using assms unfolding table_of_def
  by (induction ps arbitrary: m) (auto simp: Let_def)

lemma strip_DoubleQubit_positions: "\<forall>p \<in> set DoubleQubit_positions. strip p = p"
  by (simp add: DoubleQubit_positions_def strip_def py_isspace_def)

lemma strip_SingleQubit_positions: "\<forall>p \<in> set SingleQubit_positions. strip p = p"
  by (simp add: SingleQubit_positions_def strip_def py_isspace_def)

lemma C_of_DoubleQubit_table:
  "C_of (read_table DoubleQubit_positions (table_of DoubleQubit_positions avg) Map.empty) q =
     (if q \<in> set DoubleQubit_positions then avg q else 0)"
  using strip_DoubleQubit_positions
  by (simp add: read_table_rows C_of_def)

lemma C_of_SingleQubit_table:
  "C_of (read_table SingleQubit_positions (table_of SingleQubit_positions avg) Map.empty) q =
     (if q \<in> set SingleQubit_positions then avg q else 0)"
  using strip_SingleQubit_positions
  by (simp add: read_table_rows C_of_def)

lemma warn_zero_member:
  "out \<in> set g \<Longrightarrow> C out = 0 \<Longrightarrow> ''No coincidence for position {o}'' \<in> set (warn_zero C g)"
  by (induction g) auto

lemma aggregate_warnings_grow:
  "aggregate C gs w freq = (w', r) \<Longrightarrow> set w \<subseteq> set w'"
proof (induction gs arbitrary: w freq)
  case Nil
  then show ?case by simp
next
  case (Cons a gs)
  obtain n0 g0 where a: "a = (n0, g0)" by (cases a)
  show ?case
  proof (cases "sum_list (map C g0) = 0")
    case True
    with Cons.prems show ?thesis by (auto simp: a Let_def)
  next
    case False
    with Cons.prems have "aggregate C gs (w @ warn_zero C g0)
        (store_freq C (sum_list (map C g0)) g0 freq) = (w', r)"
      by (simp add: a Let_def)
    from Cons.IH [OF this] show ?thesis by auto
  qed
qed

lemma aggregate_warns:
  assumes "aggregate C gs w freq = (w', Inr freq')" "(n, g) \<in> set gs" "out \<in> set g" "C out = 0"
  shows "''No coincidence for position {o}'' \<in> set w'"
  using assms
proof (induction gs arbitrary: w freq)
  case Nil
  then show ?case by simp
next
  case (Cons a gs)
  obtain n0 g0 where a: "a = (n0, g0)" by (cases a)
  from Cons.prems(1) have rest: "aggregate C gs (w @ warn_zero C g0)
        (store_freq C (sum_list (map C g0)) g0 freq) = (w', Inr freq')"
    by (auto simp: a Let_def split: if_splits)
  show ?case
  proof (cases "(n, g) \<in> set gs")
    case True
    from Cons.IH [OF rest True Cons.prems(3,4)] show ?thesis .
  next
    case False
    with Cons.prems(2) a have "g = g0" by simp
    with warn_zero_member [of out g C] Cons.prems(3,4)
    have "''No coincidence for position {o}'' \<in> set (w @ warn_zero C g0)" by simp
    with aggregate_warnings_grow [OF rest] show ?thesis by blast
  qed
qed

lemma DoubleQubit_calc_results_cases:
  "DoubleQubit_calc_results table =
     (case DoubleQubit_freq table of
        (w, Inl e) \<Rightarrow> (w, Inl e)
      | (w, Inr freq) \<Rightarrow> (w, Inr (diagnostics (DoubleQubit_rho (stokes_formulas (\<lambda>k. the (freq k)))))))"
proof (cases "DoubleQubit_freq table")
  case (Pair w r)
  show ?thesis
  proof (cases r)
    case (Inl e)
    with Pair show ?thesis by (simp add: DoubleQubit_calc_results_def)
  next
    case (Inr freq)
    with Pair DoubleQubit_stokes_ok [of table w freq] show ?thesis
      by (simp add: DoubleQubit_calc_results_def)
  qed
qed

lemma DoubleQubit_zero_den:
  assumes "(name, g) \<in> set groups"
    and "sum_list (map (C_of (read_table DoubleQubit_positions table Map.empty)) g) = 0"
  shows "\<exists>w g'. g' \<in> snd ` set groups
     \<and> sum_list (map (C_of (read_table DoubleQubit_positions table Map.empty)) g') = 0
     \<and> DoubleQubit_calc_results table = (w, Inl (ValueError g'))"
proof -
  from aggregate_zero_den [OF assms, of "[]" Map.empty]
  obtain w g' where "g' \<in> snd ` set groups"
    "sum_list (map (C_of (read_table DoubleQubit_positions table Map.empty)) g') = 0"
    "DoubleQubit_freq table = (w, Inl (ValueError g'))"
    unfolding DoubleQubit_freq_def by blast
  then show ?thesis by (auto simp: DoubleQubit_calc_results_cases)
qed

lemma DoubleQubit_error:
  assumes "snd (DoubleQubit_calc_results table) = Inl e"
  shows "\<exists>g \<in> snd ` set groups. e = ValueError g
     \<and> sum_list (map (C_of (read_table DoubleQubit_positions table Map.empty)) g) = 0"
proof (cases "DoubleQubit_freq table")
  case (Pair w r)
  with assms obtain e' where r: "r = Inl e'" and e: "e' = e"
    by (cases r) (auto simp: DoubleQubit_calc_results_cases)
  from Pair r e have "aggregate (C_of (read_table DoubleQubit_positions table Map.empty)) groups [] Map.empty
      = (w, Inl e)"
    by (simp add: DoubleQubit_freq_def)
  from aggregate_error [OF this] show ?thesis .
qed

lemma SingleQubit_error:
  "SingleQubit_calc_results table = Inl e \<Longrightarrow> e = ZeroDivisionError"
  by (auto simp: SingleQubit_calc_results_def Let_def split: sum.splits dest: SingleQubit_stokes_error)

lemma SingleQubit_zero_den:
  assumes "(a, b) \<in> {(''P'', ''M''), (''R'', ''L''), (''H'', ''V'')}"
    and "C_of (read_table SingleQubit_positions table Map.empty) a
       + C_of (read_table SingleQubit_positions table Map.empty) b = 0"
  shows "SingleQubit_calc_results table = Inl ZeroDivisionError"
proof -
  from assms have "SingleQubit_stokes (C_of (read_table SingleQubit_positions table Map.empty))
      = Inl ZeroDivisionError"
    by (intro SingleQubit_zero_pair) auto
  then show ?thesis by (simp add: SingleQubit_calc_results_def)
qed

text \<open>
  Claim C3. Whenever some basis group of the two-qubit variant has raw totals that sum to
  zero, \<^verbatim>\<open>calc_results\<close> raises the \<^verbatim>\<open>ValueError\<close> of a group with denominator zero and
  returns no density matrix; whenever one of the pairs P/M, R/L, H/V of the single-qubit
  variant sums to zero, \<^verbatim>\<open>calc_results\<close> raises \<^verbatim>\<open>ZeroDivisionError\<close>.
\<close>

theorem zero_denominator_raises:
  "((name, g) \<in> set groups
      \<and> sum_list (map (C_of (read_table DoubleQubit_positions table2 Map.empty)) g) = 0
    \<longrightarrow> (\<exists>w g'. g' \<in> snd ` set groups
          \<and> sum_list (map (C_of (read_table DoubleQubit_positions table2 Map.empty)) g') = 0
          \<and> DoubleQubit_calc_results table2 = (w, Inl (ValueError g'))))
   \<and> ((a, b) \<in> {(''P'', ''M''), (''R'', ''L''), (''H'', ''V'')}
      \<and> C_of (read_table SingleQubit_positions table1 Map.empty) a
        + C_of (read_table SingleQubit_positions table1 Map.empty) b = 0
    \<longrightarrow> SingleQubit_calc_results table1 = Inl ZeroDivisionError)"
  using DoubleQubit_zero_den [of name g table2] SingleQubit_zero_den [of a b table1]
  by blast

theorem zero_denominator_raises_witness:
  "(''PM'', [''PP'', ''PM'', ''MP'', ''MM'']) \<in> set groups
   \<and> sum_list (map (C_of (read_table DoubleQubit_positions
          (table_of DoubleQubit_positions zero_PM) Map.empty)) [''PP'', ''PM'', ''MP'', ''MM'']) = 0
   \<and> (\<exists>w g'. DoubleQubit_calc_results (table_of DoubleQubit_positions zero_PM) = (w, Inl (ValueError g')))
   \<and> C_of (read_table SingleQubit_positions (table_of SingleQubit_positions zero_RL) Map.empty) ''R''
     + C_of (read_table SingleQubit_positions (table_of SingleQubit_positions zero_RL) Map.empty) ''L'' = 0
   \<and> SingleQubit_calc_results (table_of SingleQubit_positions zero_RL) = Inl ZeroDivisionError"
proof -
  have h1: "(''PM'', [''PP'', ''PM'', ''MP'', ''MM'']) \<in> set groups"
    by (simp add: groups_def)
  have h2: "sum_list (map (C_of (read_table DoubleQubit_positions
          (table_of DoubleQubit_positions zero_PM) Map.empty)) [''PP'', ''PM'', ''MP'', ''MM'']) = 0"
    by (simp add: C_of_DoubleQubit_table zero_PM_def)
  have h3: "C_of (read_table SingleQubit_positions (table_of SingleQubit_positions zero_RL) Map.empty) ''R''
     + C_of (read_table SingleQubit_positions (table_of SingleQubit_positions zero_RL) Map.empty) ''L'' = 0"
    by (simp add: C_of_SingleQubit_table zero_RL_def)
  from zero_denominator_raises [of "''PM''" "[''PP'', ''PM'', ''MP'', ''MM'']"
      "table_of DoubleQubit_positions zero_PM" "''R''" "''L''" "table_of SingleQubit_positions zero_RL"]
    h1 h2 h3
  show ?thesis by auto
qed

lemma zero_PM_result:
  "DoubleQubit_calc_results (table_of DoubleQubit_positions zero_PM) =
     ([''No coincidence for position {o}'', ''No coincidence for position {o}'',
       ''No coincidence for position {o}'', ''No coincidence for position {o}''],
      Inl (ValueError [''PP'', ''PM'', ''MP'', ''MM'']))"
proof -
  have c: "C_of (read_table DoubleQubit_positions (table_of DoubleQubit_positions zero_PM) Map.empty)
      = (\<lambda>q. if q \<in> set DoubleQubit_positions then zero_PM q else 0)"
    by (rule ext) (simp add: C_of_DoubleQubit_table)
  have "DoubleQubit_freq (table_of DoubleQubit_positions zero_PM) =
     ([''No coincidence for position {o}'', ''No coincidence for position {o}'',
       ''No coincidence for position {o}'', ''No coincidence for position {o}''],
      Inl (ValueError [''PP'', ''PM'', ''MP'', ''MM'']))"
    unfolding DoubleQubit_freq_def c
    by (simp add: groups_def zero_PM_def DoubleQubit_positions_def)
  then show ?thesis by (simp add: DoubleQubit_calc_results_cases)
qed

section \<open>Single-qubit reconstruction: the formulas\<close>

lemma SingleQubit_stokes_formulas:
  assumes "C ''P'' + C ''M'' \<noteq> 0" "C ''R'' + C ''L'' \<noteq> 0" "C ''H'' + C ''V'' \<noteq> 0"
  shows "SingleQubit_stokes C =
     Inr ((C ''P'' - C ''M'') / (C ''P'' + C ''M''),
          (C ''R'' - C ''L'') / (C ''R'' + C ''L''),
          (C ''H'' - C ''V'') / (C ''H'' + C ''V''))"
  using assms by (simp add: SingleQubit_stokes_def py_truediv_def)

lemma SingleQubit_rho_entries:
  "SingleQubit_rho TX TY TZ =
     [[(1 + of_real TY + of_real TZ) / 2, (of_real TX - \<i> * of_real TY) / 2],
      [(of_real TX + \<i> * of_real TY) / 2, (1 + of_real TY - of_real TZ) / 2]]"
  by (simp add: SingleQubit_rho_def smul_def madd_def s_0_def s_x_def s_y_def s_z_def algebra_simps)

lemma pauli_rho1_entries:
  "pauli_rho1 TX TY TZ =
     [[(1 + of_real TZ) / 2, (of_real TX - \<i> * of_real TY) / 2],
      [(of_real TX + \<i> * of_real TY) / 2, (1 - of_real TZ) / 2]]"
  by (simp add: pauli_rho1_def smul_def madd_def sigma_0_def sigma_x_def sigma_y_def sigma_z_def
      algebra_simps)

lemma SingleQubit_rho_is_pauli_iff:
  "SingleQubit_rho TX TY TZ = pauli_rho1 TX TY TZ \<longleftrightarrow> TY = 0"
  by (auto simp: SingleQubit_rho_entries pauli_rho1_entries)

lemma read_table_H:
  "read_table SingleQubit_positions (table_H k) Map.empty =
     [''H'' \<mapsto> k, ''V'' \<mapsto> 0, ''P'' \<mapsto> k / 2, ''M'' \<mapsto> k / 2, ''R'' \<mapsto> k / 2, ''L'' \<mapsto> k / 2]"
  by (simp add: table_H_def SingleQubit_positions_def strip_def py_isspace_def)

lemma read_table_R3:
  "read_table SingleQubit_positions table_R3 Map.empty =
     [''H'' \<mapsto> 1, ''V'' \<mapsto> 1, ''P'' \<mapsto> 1, ''M'' \<mapsto> 1, ''R'' \<mapsto> 3, ''L'' \<mapsto> 1]"
  by (simp add: table_R3_def SingleQubit_positions_def strip_def py_isspace_def)

lemma diagnostics_H:
  "diagnostics [[1, 0], [0, 0]] =
     \<lparr> rho = [[1, 0], [0, 0]], hermiticity = 0, trace = 1, purity = 1 \<rparr>"
  by (simp add: diagnostics_def np_max_abs_def msub_def conj_T_def np_trace_def matmul_def)

text \<open>
  Claim C2 (the code departs from it). The three Stokes parameters are computed as the
  claim says, but the matrix named \<^verbatim>\<open>s_y\<close> in the source has ones on its diagonal, so the
  assembled matrix is the Pauli expansion only when \<open>TY = 0\<close>. On the table with averages
  H = V = P = M = L = 1 and R = 3 the code computes \<open>TX = 0\<close>, \<open>TY = 1/2\<close>, \<open>TZ = 0\<close> and
  returns the matrix with diagonal \<open>3/4\<close> and trace \<open>3/2\<close>, where the Pauli expansion has
  diagonal \<open>1/2\<close>.
\<close>

theorem SingleQubit_s_y_has_unit_diagonal:
  "SingleQubit_stokes (C_of (read_table SingleQubit_positions table_R3 Map.empty)) = Inr (0, 1 / 2, 0)
   \<and> SingleQubit_calc_results table_R3 =
       Inr \<lparr> rho = [[3 / 4, - \<i> / 4], [\<i> / 4, 3 / 4]], hermiticity = 0, trace = 3 / 2,
             purity = 5 / 4 \<rparr>
   \<and> pauli_rho1 0 (1 / 2) 0 = [[1 / 2, - \<i> / 4], [\<i> / 4, 1 / 2]]"
proof -
  have st: "SingleQubit_stokes (C_of (read_table SingleQubit_positions table_R3 Map.empty))
      = Inr (0, 1 / 2, 0)"
    by (simp add: read_table_R3 SingleQubit_stokes_def C_of_def py_truediv_def)
  have "SingleQubit_calc_results table_R3 =
       Inr \<lparr> rho = [[3 / 4, - \<i> / 4], [\<i> / 4, 3 / 4]], hermiticity = 0, trace = 3 / 2,
             purity = 5 / 4 \<rparr>"
    by (simp add: SingleQubit_calc_results_def st SingleQubit_rho_entries diagnostics_def
        np_max_abs_def msub_def conj_T_def np_trace_def matmul_def)
  moreover have "pauli_rho1 0 (1 / 2) 0 = [[1 / 2, - \<i> / 4], [\<i> / 4, 1 / 2]]"
    by (simp add: pauli_rho1_entries)
  ultimately show ?thesis using st by simp
qed

text \<open>
  Claim C9. For the table with averages proportional to H = 1, V = 0 and
  P = M = R = L = 1/2 (any positive factor \<open>k\<close>), the single-qubit reconstruction computes
  \<open>TX = 0\<close>, \<open>TY = 0\<close>, \<open>TZ = 1\<close> and returns the matrix of the pure state H with hermiticity
  defect 0, trace 1 and purity 1.
\<close>

theorem SingleQubit_pure_H:
  assumes "0 < k"
  shows "SingleQubit_stokes (C_of (read_table SingleQubit_positions (table_H k) Map.empty))
           = Inr (0, 0, 1)
     \<and> SingleQubit_calc_results (table_H k) =
         Inr \<lparr> rho = [[1, 0], [0, 0]], hermiticity = 0, trace = 1, purity = 1 \<rparr>"
proof -
  from assms have st: "SingleQubit_stokes (C_of (read_table SingleQubit_positions (table_H k) Map.empty))
      = Inr (0, 0, 1)"
    by (simp add: read_table_H SingleQubit_stokes_def C_of_def py_truediv_def)
  have "SingleQubit_rho 0 0 1 = [[1, 0], [0, 0]]"
    by (simp add: SingleQubit_rho_entries)
  with st show ?thesis
    by (simp add: SingleQubit_calc_results_def diagnostics_H)
qed

theorem SingleQubit_pure_H_witness:
  "(0::real) < 1
   \<and> SingleQubit_stokes (C_of (read_table SingleQubit_positions (table_H 1) Map.empty)) = Inr (0, 0, 1)
   \<and> SingleQubit_calc_results (table_H 1) =
       Inr \<lparr> rho = [[1, 0], [0, 0]], hermiticity = 0, trace = 1, purity = 1 \<rparr>"
  using SingleQubit_pure_H [of 1] by simp

section \<open>Missing and unparseable settings\<close>

lemma sum_list_all_zero:
  fixes C :: "'a \<Rightarrow> real"
  shows "\<forall>x \<in> set g. C x = 0 \<Longrightarrow> sum_list (map C g) = 0"
  by (induction g) auto

lemma DoubleQubit_missing_basis:
  assumes "g \<in> snd ` set groups" "set g \<inter> strip ` fst ` set table = {}"
  shows "\<exists>w g'. DoubleQubit_calc_results table = (w, Inl (ValueError g'))"
proof -
  from assms(1) obtain name where ng: "(name, g) \<in> set groups" by force
  have "\<forall>out \<in> set g. C_of (read_table DoubleQubit_positions table Map.empty) out = 0"
    using assms(2) by (auto intro: C_of_absent)
  from DoubleQubit_zero_den [OF ng sum_list_all_zero [OF this]] show ?thesis by blast
qed

lemma SingleQubit_missing_pair:
  assumes "(a, b) \<in> {(''P'', ''M''), (''R'', ''L''), (''H'', ''V'')}"
    and "{a, b} \<inter> strip ` fst ` set table = {}"
  shows "SingleQubit_calc_results table = Inl ZeroDivisionError"
proof -
  from assms(2) have "a \<notin> strip ` fst ` set table" "b \<notin> strip ` fst ` set table" by auto
  then have "C_of (read_table SingleQubit_positions table Map.empty) a
       + C_of (read_table SingleQubit_positions table Map.empty) b = 0"
    by (simp add: C_of_absent)
  from SingleQubit_zero_den [OF assms(1) this] show ?thesis .
qed

lemma DoubleQubit_zero_member_warns:
  assumes "g \<in> snd ` set groups" "name \<in> set g"
    and "C_of (read_table DoubleQubit_positions table Map.empty) name = 0"
    and "DoubleQubit_calc_results table = (w, Inr r)"
  shows "''No coincidence for position {o}'' \<in> set w"
proof -
  from assms(1) obtain n where ng: "(n, g) \<in> set groups" by force
  obtain w' x where f: "DoubleQubit_freq table = (w', x)" by (cases "DoubleQubit_freq table")
  with assms(4) obtain freq where "x = Inr freq" "w' = w"
    by (cases x) (auto simp: DoubleQubit_calc_results_cases)
  with f have "aggregate (C_of (read_table DoubleQubit_positions table Map.empty)) groups [] Map.empty
      = (w, Inr freq)"
    by (simp add: DoubleQubit_freq_def)
  from aggregate_warns [OF this ng assms(2,3)] show ?thesis .
qed

text \<open>
  Rows that are absent and cells that are text. A setting with no row in the table, or
  whose last row holds text that \<^verbatim>\<open>float\<close> rejects, has raw count 0 in both variants. No
  missing-data error exists: the only exception of the two-qubit reconstruction is the
  \<^verbatim>\<open>ValueError\<close> of a group with total 0, the only one of the single-qubit reconstruction
  is \<^verbatim>\<open>ZeroDivisionError\<close>; a basis all of whose settings are absent raises exactly these;
  and when the two-qubit reconstruction returns, the zero member has produced the
  warning. (An empty cell is not covered: \<^verbatim>\<open>pd.read_csv\<close> reads it as NaN, on which
  \<^verbatim>\<open>float\<close> succeeds; see the last theorem of the section on doubles.)
\<close>

theorem missing_or_unparseable_counts_as_zero:
  assumes "name \<notin> strip ` fst ` set table
     \<or> (table = rows @ (p, Garbage s) # rest \<and> strip p = name \<and> name \<notin> strip ` fst ` set rest)"
  shows "C_of (read_table DoubleQubit_positions table Map.empty) name = 0
     \<and> C_of (read_table SingleQubit_positions table Map.empty) name = 0
     \<and> (\<forall>e. snd (DoubleQubit_calc_results table) = Inl e \<longrightarrow>
          (\<exists>g \<in> snd ` set groups. e = ValueError g
             \<and> sum_list (map (C_of (read_table DoubleQubit_positions table Map.empty)) g) = 0))
     \<and> (\<forall>e. SingleQubit_calc_results table = Inl e \<longrightarrow> e = ZeroDivisionError)
     \<and> (\<forall>g \<in> snd ` set groups. set g \<inter> strip ` fst ` set table = {} \<longrightarrow>
          (\<exists>w g'. DoubleQubit_calc_results table = (w, Inl (ValueError g'))))
     \<and> (\<forall>(a, b) \<in> {(''P'', ''M''), (''R'', ''L''), (''H'', ''V'')}.
          {a, b} \<inter> strip ` fst ` set table = {} \<longrightarrow>
          SingleQubit_calc_results table = Inl ZeroDivisionError)
     \<and> (\<forall>g \<in> snd ` set groups. \<forall>w r.
          name \<in> set g \<and> DoubleQubit_calc_results table = (w, Inr r) \<longrightarrow>
          ''No coincidence for position {o}'' \<in> set w)"
proof (intro conjI)
  have zero: "C_of (read_table positions table Map.empty) name = 0" for positions
    using assms C_of_absent [of name table positions]
      C_of_garbage [of table rows p s rest name positions]
    by blast
  show "C_of (read_table DoubleQubit_positions table Map.empty) name = 0"
    by (rule zero)
  show "C_of (read_table SingleQubit_positions table Map.empty) name = 0"
    by (rule zero)
  show "\<forall>e. snd (DoubleQubit_calc_results table) = Inl e \<longrightarrow>
          (\<exists>g \<in> snd ` set groups. e = ValueError g
             \<and> sum_list (map (C_of (read_table DoubleQubit_positions table Map.empty)) g) = 0)"
    by (intro allI impI) (rule DoubleQubit_error)
  show "\<forall>e. SingleQubit_calc_results table = Inl e \<longrightarrow> e = ZeroDivisionError"
    by (intro allI impI) (rule SingleQubit_error)
  show "\<forall>g \<in> snd ` set groups. set g \<inter> strip ` fst ` set table = {} \<longrightarrow>
          (\<exists>w g'. DoubleQubit_calc_results table = (w, Inl (ValueError g')))"
    by (intro ballI impI) (rule DoubleQubit_missing_basis)
  show "\<forall>(a, b) \<in> {(''P'', ''M''), (''R'', ''L''), (''H'', ''V'')}.
          {a, b} \<inter> strip ` fst ` set table = {} \<longrightarrow>
          SingleQubit_calc_results table = Inl ZeroDivisionError"
  proof (intro ballI)
    fix ab :: "string \<times> string"
    assume ab: "ab \<in> {(''P'', ''M''), (''R'', ''L''), (''H'', ''V'')}"
    obtain a b where eq: "ab = (a, b)" by (cases ab)
    from ab SingleQubit_missing_pair [of a b table]
    show "case ab of (a, b) \<Rightarrow> {a, b} \<inter> strip ` fst ` set table = {} \<longrightarrow>
          SingleQubit_calc_results table = Inl ZeroDivisionError"
      unfolding eq by simp
  qed
  show "\<forall>g \<in> snd ` set groups. \<forall>w r.
          name \<in> set g \<and> DoubleQubit_calc_results table = (w, Inr r) \<longrightarrow>
          ''No coincidence for position {o}'' \<in> set w"
  proof (intro ballI allI impI)
    fix g w r
    assume g: "g \<in> snd ` set groups"
      and "name \<in> set g \<and> DoubleQubit_calc_results table = (w, Inr r)"
    then have n: "name \<in> set g" and r: "DoubleQubit_calc_results table = (w, Inr r)"
      by simp_all
    from DoubleQubit_zero_member_warns [OF g n zero r]
    show "''No coincidence for position {o}'' \<in> set w" .
  qed
qed

theorem missing_or_unparseable_counts_as_zero_witness:
  "(table_garbage = [] @ ('' HH'', Garbage ''12 counts'') # [(''HV'', Number 2)]
      \<and> strip '' HH'' = ''HH'' \<and> ''HH'' \<notin> strip ` fst ` set [(''HV'', Number 2)])
   \<and> C_of (read_table DoubleQubit_positions table_garbage Map.empty) ''HH'' = 0
   \<and> (\<exists>w g'. DoubleQubit_calc_results table_garbage = (w, Inl (ValueError g')))"
proof -
  have h: "table_garbage = [] @ ('' HH'', Garbage ''12 counts'') # [(''HV'', Number 2)]
      \<and> strip '' HH'' = ''HH'' \<and> ''HH'' \<notin> strip ` fst ` set [(''HV'', Number 2)]"
    by (simp add: table_garbage_def strip_def py_isspace_def)
  have g: "[''PP'', ''PM'', ''MP'', ''MM''] \<in> snd ` set groups"
    by (simp add: groups_def image_iff)
  have m: "set [''PP'', ''PM'', ''MP'', ''MM''] \<inter> strip ` fst ` set table_garbage = {}"
    by (simp add: table_garbage_def strip_def py_isspace_def)
  note c = missing_or_unparseable_counts_as_zero
    [of "''HH''" table_garbage "[]" "'' HH''" "''12 counts''" "[(''HV'', Number 2)]", OF disjI2 [OF h]]
  from c have z: "C_of (read_table DoubleQubit_positions table_garbage Map.empty) ''HH'' = 0"
    by (elim conjE)
  from c have c5: "\<forall>g \<in> snd ` set groups. set g \<inter> strip ` fst ` set table_garbage = {} \<longrightarrow>
          (\<exists>w g'. DoubleQubit_calc_results table_garbage = (w, Inl (ValueError g')))"
    by (elim conjE)
  from bspec [OF c5 g] m
  have e: "\<exists>w g'. DoubleQubit_calc_results table_garbage = (w, Inl (ValueError g'))"
    by (rule mp)
  from h z e show ?thesis by blast
qed

section \<open>The latch and the acquisition loops\<close>

lemma DoubleQubit_repetition_clears:
  assumes "DoubleQubit_repetition pos_name self = Some self'"
  shows "current_ch1 self' = None \<and> current_ch2 self' = None \<and> current_coinc self' = None
     \<and> DoubleQubit_repetition pos_name' self' = None
     \<and> current_ch1 self = Some (last (ch1 (data self' pos_name)))
     \<and> current_ch2 self = Some (last (ch2 (data self' pos_name)))
     \<and> current_coinc self = Some (last (coinc (data self' pos_name)))"
  using assms
  by (auto simp: DoubleQubit_repetition_def split: option.splits)

lemma DoubleQubit_repetition_waits:
  "current_ch1 self = None \<or> current_ch2 self = None \<or> current_coinc self = None
     \<Longrightarrow> DoubleQubit_repetition pos_name self = None"
  by (auto simp: DoubleQubit_repetition_def split: option.splits)

lemma SingleQubit_repetition_keeps:
  assumes "SingleQubit_repetition pos_name self = Some self'"
  shows "current_ch1 self' = current_ch1 self \<and> current_ch1 self' \<noteq> None
     \<and> SingleQubit_repetition pos_name' self' \<noteq> None"
  using assms
  by (auto simp: SingleQubit_repetition_def split: option.splits)

lemma DoubleQubit_one_window:
  "ch1 (data (fst (DoubleQubit_measure_position ''HH''
      [Callback data_channel1 1 (7::int), Callback data_channel2 1 8, Callback data_coinc 1 9,
       Acquire, Acquire] (BaseQubit_init 2 5))) ''HH'') = [7]
   \<and> snd (DoubleQubit_measure_position ''HH''
      [Callback data_channel1 1 (7::int), Callback data_channel2 1 8, Callback data_coinc 1 9,
       Acquire, Acquire] (BaseQubit_init 2 5)) = 1"
  by (simp add: DoubleQubit_measure_position_def BaseQubit_init_def data_callback_def
      DoubleQubit_repetition_def data_channel1_def data_channel2_def data_coinc_def
      empty_measurement_dict_def numeral_2_eq_2)

text \<open>
  Claim C1 (the code departs from it). The two-qubit loop clears the three slots it has
  read, so a second repetition waits until all three are published again
  (\<open>DoubleQubit_repetition_clears\<close>, \<open>DoubleQubit_one_window\<close>). The single-qubit loop sets
  \<^verbatim>\<open>_current_ch2\<close> to \<^verbatim>\<open>None\<close> and leaves \<^verbatim>\<open>_current_ch1\<close>, the slot it has read, as it is:
  with two samples to take, one callback on channel 1 with value 7 followed by two
  repetitions appends that one sample twice and ends the loop, the slot still full.
\<close>

theorem SingleQubit_appends_one_sample_twice:
  "ch1 (data (fst (SingleQubit_measure_position ''H''
      [Callback data_channel1 1 (7::int), Acquire, Acquire] (BaseQubit_init 2 5))) ''H'') = [7, 7]
   \<and> snd (SingleQubit_measure_position ''H''
      [Callback data_channel1 1 (7::int), Acquire, Acquire] (BaseQubit_init 2 5)) = 0
   \<and> current_ch1 (fst (SingleQubit_measure_position ''H''
      [Callback data_channel1 1 (7::int), Acquire, Acquire] (BaseQubit_init 2 5))) = Some 7"
  by (simp add: SingleQubit_measure_position_def BaseQubit_init_def data_callback_def
      SingleQubit_repetition_def data_channel1_def empty_measurement_dict_def numeral_2_eq_2)

section \<open>Two-qubit reconstruction: the Stokes parameters and the matrix\<close>

lemma DoubleQubit_freq_values:
  assumes "\<forall>(name, g) \<in> set groups.
             sum_list (map (C_of (read_table DoubleQubit_positions table Map.empty)) g) \<noteq> 0"
  shows "\<exists>w freq. DoubleQubit_freq table = (w, Inr freq)
     \<and> (\<forall>(name, g) \<in> set groups. \<forall>out \<in> set g.
           freq (lower out) = Some (C_of (read_table DoubleQubit_positions table Map.empty) out
             / sum_list (map (C_of (read_table DoubleQubit_positions table Map.empty)) g)))"
proof -
  let ?C = "C_of (read_table DoubleQubit_positions table Map.empty)"
  from aggregate_ok [OF assms, of "[]" Map.empty]
  obtain w freq where agg: "aggregate ?C groups [] Map.empty = (w, Inr freq)" by blast
  have "freq (lower out) = Some (?C out / sum_list (map ?C g))"
    if "(name, g) \<in> set groups" "out \<in> set g" for name g out
    using aggregate_freq [OF agg groups_distinct that] .
  with agg show ?thesis unfolding DoubleQubit_freq_def by blast
qed

lemma DoubleQubit_stokes_of_table_ok:
  assumes "DoubleQubit_freq table = (w, Inr freq)"
  shows "DoubleQubit_stokes_of_table table = Inr (stokes_formulas (\<lambda>k. the (freq k)))"
  using assms DoubleQubit_stokes_ok [OF assms]
  by (simp add: DoubleQubit_stokes_of_table_def)

lemma C_of_table_fun:
  "C_of (read_table DoubleQubit_positions (table_of DoubleQubit_positions avg) Map.empty)
     = (\<lambda>q. if q \<in> set DoubleQubit_positions then avg q else 0)"
  by (rule ext) (simp add: C_of_DoubleQubit_table)

lemma freq_RH3:
  "\<exists>w freq. DoubleQubit_freq (table_of DoubleQubit_positions avg_RH3) = (w, Inr freq)
     \<and> map freq lookup_order = map Some
         [1/4, 1/4, 1/4, 1/4, 1/4, 1/4, 1/4, 1/4, 1/4, 1/4, 1/4, 1/4, 1/4, 1/4, 1/4, 1/4,
          1/4, 1/4, 1/4, 1/4, 1/4, 1/4, 1/4, 1/4, 1/2, 1/6, 1/6, 1/6, 1/4, 1/4, 1/4, 1/4,
          1/4, 1/4, 1/4, 1/4]"
proof -
  have nz: "\<forall>(name, g) \<in> set groups.
      sum_list (map (C_of (read_table DoubleQubit_positions
        (table_of DoubleQubit_positions avg_RH3) Map.empty)) g) \<noteq> 0"
    unfolding C_of_table_fun by (simp add: groups_def DoubleQubit_positions_def avg_RH3_def)
  from DoubleQubit_freq_values [OF nz] obtain w freq where
    f: "DoubleQubit_freq (table_of DoubleQubit_positions avg_RH3) = (w, Inr freq)"
    and v: "\<forall>(name, g) \<in> set groups. \<forall>out \<in> set g.
           freq (lower out) = Some (C_of (read_table DoubleQubit_positions
               (table_of DoubleQubit_positions avg_RH3) Map.empty) out
             / sum_list (map (C_of (read_table DoubleQubit_positions
               (table_of DoubleQubit_positions avg_RH3) Map.empty)) g))"
    by blast
  from v have "map freq lookup_order = map Some
         [1/4, 1/4, 1/4, 1/4, 1/4, 1/4, 1/4, 1/4, 1/4, 1/4, 1/4, 1/4, 1/4, 1/4, 1/4, 1/4,
          1/4, 1/4, 1/4, 1/4, 1/4, 1/4, 1/4, 1/4, 1/2, 1/6, 1/6, 1/6, 1/4, 1/4, 1/4, 1/4,
          1/4, 1/4, 1/4, 1/4]"
    unfolding C_of_table_fun
    by (simp add: groups_def DoubleQubit_positions_def avg_RH3_def lookup_order_def
        lower_def lower_char_def)
  with f show ?thesis by blast
qed

lemma stokes_formulas_same_letter:
  "TZZ (stokes_formulas f) = correlation f ''hh'' ''hv'' ''vh'' ''vv''"
  "TXX (stokes_formulas f) = correlation f ''pp'' ''pm'' ''mp'' ''mm''"
  "TYY (stokes_formulas f) = correlation f ''rr'' ''rl'' ''lr'' ''ll''"
  by (simp_all add: stokes_formulas_def correlation_def)

lemma stokes_formulas_mixed:
  "TXZ (stokes_formulas f) = correlation f ''hp'' ''hm'' ''vp'' ''vm''"
  "TZX (stokes_formulas f) = correlation f ''ph'' ''pv'' ''mh'' ''mv''"
  "TXY (stokes_formulas f) = correlation f ''hr'' ''hl'' ''vr'' ''vl''"
  "TYX (stokes_formulas f) = correlation f ''rh'' ''rv'' ''lh'' ''lv''"
  "TZY (stokes_formulas f) = f ''rh'' + f ''rv'' - f ''lh'' - f ''lv''"
  "TYZ (stokes_formulas f) = f ''hr'' + f ''vr'' - f ''hl'' - f ''vl''"
  by (simp_all add: stokes_formulas_def correlation_def)

text \<open>
  Claim C6 (the code departs from it). Only \<open>TZZ\<close>, \<open>TXX\<close> and \<open>TYY\<close> are the correlation of
  the basis the claim names (\<open>stokes_formulas_same_letter\<close>). The source computes \<open>TZY\<close> as
  \<open>f(rh) - f(lh) - f(lv) + f(rv)\<close> and \<open>TYZ\<close> as \<open>f(hr) - f(hl) - f(vl) + f(vr)\<close>, which are
  not correlations, and takes \<open>TXY\<close>, \<open>TYX\<close> from the bases of \<open>TZY\<close>, \<open>TYZ\<close>
  (\<open>stokes_formulas_mixed\<close>). On the table with average 1 for every setting except
  RH = 3 the code computes \<open>TZY = 1/3\<close> and \<open>TYZ = 0\<close>, while the sums of the claim are
  \<open>f(hr) - f(hl) - f(vr) + f(vl) = 0\<close> and \<open>f(rh) - f(rv) - f(lh) + f(lv) = 1/3\<close>.
\<close>

theorem DoubleQubit_TZY_TYZ_not_correlations:
  "map_sum id (\<lambda>s. (TZY s, TYZ s))
      (DoubleQubit_stokes_of_table (table_of DoubleQubit_positions avg_RH3)) = Inr (1 / 3, 0)
   \<and> map_sum id (\<lambda>f. (correlation f ''hr'' ''hl'' ''vr'' ''vl'',
                       correlation f ''rh'' ''rv'' ''lh'' ''lv''))
      (DoubleQubit_frequencies (table_of DoubleQubit_positions avg_RH3)) = Inr (0, 1 / 3)"
proof -
  from freq_RH3 obtain w freq where
    f: "DoubleQubit_freq (table_of DoubleQubit_positions avg_RH3) = (w, Inr freq)"
    and "map freq lookup_order = map Some
         [1/4, 1/4, 1/4, 1/4, 1/4, 1/4, 1/4, 1/4, 1/4, 1/4, 1/4, 1/4, 1/4, 1/4, 1/4, 1/4,
          1/4, 1/4, 1/4, 1/4, 1/4, 1/4, 1/4, 1/4, 1/2, 1/6, 1/6, 1/6, 1/4, 1/4, 1/4, 1/4,
          1/4, 1/4, 1/4, 1/4]"
    by blast
  then have v: "freq ''hr'' = Some (1/4)" "freq ''hl'' = Some (1/4)" "freq ''vr'' = Some (1/4)"
    "freq ''vl'' = Some (1/4)" "freq ''rh'' = Some (1/2)" "freq ''lh'' = Some (1/6)"
    "freq ''rv'' = Some (1/6)" "freq ''lv'' = Some (1/6)"
    by (simp_all add: lookup_order_def)
  have "map_sum id (\<lambda>s. (TZY s, TYZ s))
      (DoubleQubit_stokes_of_table (table_of DoubleQubit_positions avg_RH3)) = Inr (1 / 3, 0)"
    by (simp add: DoubleQubit_stokes_of_table_ok [OF f] stokes_formulas_mixed v)
  moreover have "map_sum id (\<lambda>f. (correlation f ''hr'' ''hl'' ''vr'' ''vl'',
                       correlation f ''rh'' ''rv'' ''lh'' ''lv''))
      (DoubleQubit_frequencies (table_of DoubleQubit_positions avg_RH3)) = Inr (0, 1 / 3)"
    by (simp add: DoubleQubit_frequencies_def f correlation_def v)
  ultimately show ?thesis by (rule conjI)
qed

lemma kron_pauli:
  "kron sigma_0 sigma_0 = [[1, 0, 0, 0], [0, 1, 0, 0], [0, 0, 1, 0], [0, 0, 0, 1]]"
  "kron sigma_0 sigma_x = [[0, 1, 0, 0], [1, 0, 0, 0], [0, 0, 0, 1], [0, 0, 1, 0]]"
  "kron sigma_0 sigma_y = [[0, - \<i>, 0, 0], [\<i>, 0, 0, 0], [0, 0, 0, - \<i>], [0, 0, \<i>, 0]]"
  "kron sigma_0 sigma_z = [[1, 0, 0, 0], [0, - 1, 0, 0], [0, 0, 1, 0], [0, 0, 0, - 1]]"
  "kron sigma_x sigma_0 = [[0, 0, 1, 0], [0, 0, 0, 1], [1, 0, 0, 0], [0, 1, 0, 0]]"
  "kron sigma_x sigma_x = [[0, 0, 0, 1], [0, 0, 1, 0], [0, 1, 0, 0], [1, 0, 0, 0]]"
  "kron sigma_x sigma_y = [[0, 0, 0, - \<i>], [0, 0, \<i>, 0], [0, - \<i>, 0, 0], [\<i>, 0, 0, 0]]"
  "kron sigma_x sigma_z = [[0, 0, 1, 0], [0, 0, 0, - 1], [1, 0, 0, 0], [0, - 1, 0, 0]]"
  "kron sigma_y sigma_0 = [[0, 0, - \<i>, 0], [0, 0, 0, - \<i>], [\<i>, 0, 0, 0], [0, \<i>, 0, 0]]"
  "kron sigma_y sigma_x = [[0, 0, 0, - \<i>], [0, 0, - \<i>, 0], [0, \<i>, 0, 0], [\<i>, 0, 0, 0]]"
  "kron sigma_y sigma_y = [[0, 0, 0, - 1], [0, 0, 1, 0], [0, 1, 0, 0], [- 1, 0, 0, 0]]"
  "kron sigma_y sigma_z = [[0, 0, - \<i>, 0], [0, 0, 0, \<i>], [\<i>, 0, 0, 0], [0, - \<i>, 0, 0]]"
  "kron sigma_z sigma_0 = [[1, 0, 0, 0], [0, 1, 0, 0], [0, 0, - 1, 0], [0, 0, 0, - 1]]"
  "kron sigma_z sigma_x = [[0, 1, 0, 0], [1, 0, 0, 0], [0, 0, 0, - 1], [0, 0, - 1, 0]]"
  "kron sigma_z sigma_y = [[0, - \<i>, 0, 0], [\<i>, 0, 0, 0], [0, 0, 0, \<i>], [0, 0, - \<i>, 0]]"
  "kron sigma_z sigma_z = [[1, 0, 0, 0], [0, - 1, 0, 0], [0, 0, - 1, 0], [0, 0, 0, 1]]"
  by (simp_all add: kron_def sigma_0_def sigma_x_def sigma_y_def sigma_z_def)

lemma pauli_rho2_entries:
  "pauli_rho2 s =
     (let t00 = complex_of_real (T00 s); tzz = complex_of_real (TZZ s);
          txx = complex_of_real (TXX s); tyy = complex_of_real (TYY s);
          tz0 = complex_of_real (TZ0 s); t0z = complex_of_real (T0Z s);
          tx0 = complex_of_real (TX0 s); t0x = complex_of_real (T0X s);
          ty0 = complex_of_real (TY0 s); t0y = complex_of_real (T0Y s);
          txz = complex_of_real (TXZ s); tzx = complex_of_real (TZX s);
          txy = complex_of_real (TXY s); tyx = complex_of_real (TYX s);
          tzy = complex_of_real (TZY s); tyz = complex_of_real (TYZ s)
      in smul (1 / 4)
        [[t00 + t0z + tz0 + tzz, t0x - \<i> * t0y + tzx - \<i> * tzy,
          tx0 + txz - \<i> * ty0 - \<i> * tyz, txx - \<i> * txy - \<i> * tyx - tyy],
         [t0x + \<i> * t0y + tzx + \<i> * tzy, t00 - t0z + tz0 - tzz,
          txx + \<i> * txy - \<i> * tyx + tyy, tx0 - txz - \<i> * ty0 + \<i> * tyz],
         [tx0 + txz + \<i> * ty0 + \<i> * tyz, txx - \<i> * txy + \<i> * tyx + tyy,
          t00 + t0z - tz0 - tzz, t0x - \<i> * t0y - tzx + \<i> * tzy],
         [txx + \<i> * txy + \<i> * tyx - tyy, tx0 - txz + \<i> * ty0 - \<i> * tyz,
          t0x + \<i> * t0y - tzx - \<i> * tzy, t00 - t0z - tz0 + tzz]])"
  by (simp add: pauli_rho2_def Let_def kron_pauli smul_def madd_def algebra_simps)

lemma DoubleQubit_rho_is_pauli_iff:
  "DoubleQubit_rho s = pauli_rho2 s \<longleftrightarrow> TZX s = 0 \<and> TYX s = TYZ s"
  by (auto simp: DoubleQubit_rho_def pauli_rho2_entries Let_def smul_def)

lemma freq_PH3:
  "\<exists>w freq. DoubleQubit_freq (table_of DoubleQubit_positions avg_PH3) = (w, Inr freq)
     \<and> map freq lookup_order = map Some
         [1/4, 1/4, 1/4, 1/4, 1/4, 1/4, 1/4, 1/4, 1/4, 1/4, 1/4, 1/4, 1/4, 1/4, 1/4, 1/4,
          1/4, 1/4, 1/4, 1/4, 1/2, 1/6, 1/6, 1/6, 1/4, 1/4, 1/4, 1/4, 1/4, 1/4, 1/4, 1/4,
          1/4, 1/4, 1/4, 1/4]"
proof -
  have nz: "\<forall>(name, g) \<in> set groups.
      sum_list (map (C_of (read_table DoubleQubit_positions
        (table_of DoubleQubit_positions avg_PH3) Map.empty)) g) \<noteq> 0"
    unfolding C_of_table_fun by (simp add: groups_def DoubleQubit_positions_def avg_PH3_def)
  from DoubleQubit_freq_values [OF nz] obtain w freq where
    f: "DoubleQubit_freq (table_of DoubleQubit_positions avg_PH3) = (w, Inr freq)"
    and v: "\<forall>(name, g) \<in> set groups. \<forall>out \<in> set g.
           freq (lower out) = Some (C_of (read_table DoubleQubit_positions
               (table_of DoubleQubit_positions avg_PH3) Map.empty) out
             / sum_list (map (C_of (read_table DoubleQubit_positions
               (table_of DoubleQubit_positions avg_PH3) Map.empty)) g))"
    by blast
  from v have "map freq lookup_order = map Some
         [1/4, 1/4, 1/4, 1/4, 1/4, 1/4, 1/4, 1/4, 1/4, 1/4, 1/4, 1/4, 1/4, 1/4, 1/4, 1/4,
          1/4, 1/4, 1/4, 1/4, 1/2, 1/6, 1/6, 1/6, 1/4, 1/4, 1/4, 1/4, 1/4, 1/4, 1/4, 1/4,
          1/4, 1/4, 1/4, 1/4]"
    unfolding C_of_table_fun
    by (simp add: groups_def DoubleQubit_positions_def avg_PH3_def lookup_order_def
        lower_def lower_char_def)
  with f show ?thesis by blast
qed

lemma stokes_of_PH3:
  "DoubleQubit_stokes_of_table (table_of DoubleQubit_positions avg_PH3) = Inr stokes_PH3"
proof -
  from freq_PH3 obtain w freq where
    f: "DoubleQubit_freq (table_of DoubleQubit_positions avg_PH3) = (w, Inr freq)"
    and "map freq lookup_order = map Some
         [1/4, 1/4, 1/4, 1/4, 1/4, 1/4, 1/4, 1/4, 1/4, 1/4, 1/4, 1/4, 1/4, 1/4, 1/4, 1/4,
          1/4, 1/4, 1/4, 1/4, 1/2, 1/6, 1/6, 1/6, 1/4, 1/4, 1/4, 1/4, 1/4, 1/4, 1/4, 1/4,
          1/4, 1/4, 1/4, 1/4]"
    by blast
  then have "stokes_formulas (\<lambda>k. the (freq k)) = stokes_PH3"
    by (simp add: lookup_order_def stokes_formulas_def stokes_PH3_def)
  with DoubleQubit_stokes_of_table_ok [OF f] show ?thesis by simp
qed

lemma DoubleQubit_calc_results_stokes:
  "snd (DoubleQubit_calc_results table) =
     map_sum id (\<lambda>s. diagnostics (DoubleQubit_rho s)) (DoubleQubit_stokes_of_table table)"
proof (cases "DoubleQubit_freq table")
  case (Pair w r)
  then show ?thesis
    by (cases r)
      (auto simp: DoubleQubit_calc_results_def DoubleQubit_stokes_of_table_def split: sum.splits)
qed

lemma rho_PH3:
  "DoubleQubit_rho stokes_PH3 =
     [[5 / 18, - 1 / 12, 1 / 36, 0], [1 / 12, 2 / 9, 0, 1 / 36],
      [1 / 36, 0, 5 / 18, - 1 / 12], [0, 1 / 36, - 1 / 12, 2 / 9]]"
  by (simp add: DoubleQubit_rho_def Let_def stokes_PH3_def smul_def)

lemma pauli_PH3:
  "pauli_rho2 stokes_PH3 =
     [[5 / 18, 1 / 12, 1 / 36, 0], [1 / 12, 2 / 9, 0, 1 / 36],
      [1 / 36, 0, 5 / 18, - 1 / 12], [0, 1 / 36, - 1 / 12, 2 / 9]]"
  by (simp add: pauli_rho2_entries Let_def stokes_PH3_def smul_def)

lemma diagnostics_PH3:
  "diagnostics
     [[5 / 18, - 1 / 12, 1 / 36, 0], [1 / 12, 2 / 9, 0, 1 / 36],
      [1 / 36, 0, 5 / 18, - 1 / 12], [0, 1 / 36, - 1 / 12, 2 / 9]] =
   \<lparr> rho = [[5 / 18, - 1 / 12, 1 / 36, 0], [1 / 12, 2 / 9, 0, 1 / 36],
            [1 / 36, 0, 5 / 18, - 1 / 12], [0, 1 / 36, - 1 / 12, 2 / 9]],
     hermiticity = 1 / 6, trace = 1, purity = 83 / 324 \<rparr>"
  by (simp add: diagnostics_def np_max_abs_def msub_def conj_T_def np_trace_def matmul_def
      norm_divide)

text \<open>
  Claim C5 (the code departs from it). Two entries of the literal matrix differ from the
  Pauli expansion: row 0, column 1 has \<open>- TZX\<close> where the expansion has \<open>+ TZX\<close>, and row 3,
  column 1 has \<open>TYX\<close> where the expansion has \<open>TYZ\<close>; the other fourteen agree
  (\<open>pauli_rho2_entries\<close>), so the assembled matrix is the expansion exactly when \<open>TZX = 0\<close>
  and \<open>TYX = TYZ\<close> (\<open>DoubleQubit_rho_is_pauli_iff\<close>). On the table with average 1 for every
  setting except PH = 3 the code computes \<open>TZX = 1/3\<close> and returns a matrix with entry
  \<open>- 1/12\<close> at row 0, column 1 and \<open>1/12\<close> at row 1, column 0: its hermiticity defect is
  \<open>1/6\<close>, not 0, and the Pauli expansion of the same Stokes parameters has \<open>1/12\<close> in both
  places.
\<close>

theorem DoubleQubit_rho_not_hermitian:
  "snd (DoubleQubit_calc_results (table_of DoubleQubit_positions avg_PH3)) =
     Inr \<lparr> rho = [[5 / 18, - 1 / 12, 1 / 36, 0], [1 / 12, 2 / 9, 0, 1 / 36],
                  [1 / 36, 0, 5 / 18, - 1 / 12], [0, 1 / 36, - 1 / 12, 2 / 9]],
           hermiticity = 1 / 6, trace = 1, purity = 83 / 324 \<rparr>
   \<and> map_sum id pauli_rho2 (DoubleQubit_stokes_of_table (table_of DoubleQubit_positions avg_PH3)) =
     Inr [[5 / 18, 1 / 12, 1 / 36, 0], [1 / 12, 2 / 9, 0, 1 / 36],
          [1 / 36, 0, 5 / 18, - 1 / 12], [0, 1 / 36, - 1 / 12, 2 / 9]]"
proof -
  have "snd (DoubleQubit_calc_results (table_of DoubleQubit_positions avg_PH3)) =
      Inr (diagnostics (DoubleQubit_rho stokes_PH3))"
    by (simp add: DoubleQubit_calc_results_stokes stokes_of_PH3)
  then have a: "snd (DoubleQubit_calc_results (table_of DoubleQubit_positions avg_PH3)) =
     Inr \<lparr> rho = [[5 / 18, - 1 / 12, 1 / 36, 0], [1 / 12, 2 / 9, 0, 1 / 36],
                  [1 / 36, 0, 5 / 18, - 1 / 12], [0, 1 / 36, - 1 / 12, 2 / 9]],
           hermiticity = 1 / 6, trace = 1, purity = 83 / 324 \<rparr>"
    by (simp only: rho_PH3 diagnostics_PH3)
  have "map_sum id pauli_rho2 (DoubleQubit_stokes_of_table (table_of DoubleQubit_positions avg_PH3)) =
      Inr (pauli_rho2 stokes_PH3)"
    by (simp add: stokes_of_PH3)
  then have b: "map_sum id pauli_rho2
       (DoubleQubit_stokes_of_table (table_of DoubleQubit_positions avg_PH3)) =
     Inr [[5 / 18, 1 / 12, 1 / 36, 0], [1 / 12, 2 / 9, 0, 1 / 36],
          [1 / 36, 0, 5 / 18, - 1 / 12], [0, 1 / 36, - 1 / 12, 2 / 9]]"
    by (simp only: pauli_PH3)
  from a b show ?thesis by (rule conjI)
qed

section \<open>The frequencies of a basis on doubles\<close>











lemma read_table_double_rows:
  assumes "\<forall>p \<in> set ps. strip p = p \<and> p \<in> set positions"
  shows "read_table_double positions (frame_of ps avg) m q
     = (if q \<in> set ps then Some (avg q) else m q)"
  using assms unfolding frame_of_def
  by (induction ps arbitrary: m) (auto simp: Let_def)

lemma C_double_DoubleQubit_frame:
  "C_double (read_table_double DoubleQubit_positions (frame_of DoubleQubit_positions avg) Map.empty) q
     = (if q \<in> set DoubleQubit_positions then avg q else Finite 0)"
  using strip_DoubleQubit_positions
  by (simp add: read_table_double_rows C_double_def)

lemma store_freq_double_ok:
  assumes "den \<noteq> Finite 0"
  shows "store_freq_double C den g freq
     = Inr (fold (\<lambda>out f. f(lower out \<mapsto> double_div (C out) den)) g freq)"
  using assms by (induction g arbitrary: freq) (simp_all add: double_truediv_def)

lemma fold_store_other:
  "k \<notin> lower ` set g \<Longrightarrow> fold (\<lambda>out f. f(lower out \<mapsto> v out)) g freq k = freq k"
  by (induction g arbitrary: freq) auto

lemma fold_store_hit:
  "distinct (map lower g) \<Longrightarrow> out \<in> set g
     \<Longrightarrow> fold (\<lambda>out f. f(lower out \<mapsto> v out)) g freq (lower out) = Some (v out)"
proof (induction g arbitrary: freq)
  case Nil
  then show ?case by simp
next
  case (Cons a g)
  show ?case
  proof (cases "out = a")
    case True
    from Cons.prems(1) have "lower a \<notin> lower ` set g" by simp
    from fold_store_other [OF this, of v "freq(lower a \<mapsto> v a)"]
    have "fold (\<lambda>out f. f(lower out \<mapsto> v out)) g (freq(lower a \<mapsto> v a)) (lower a)
        = Some (v a)"
      by simp
    moreover have "fold (\<lambda>out f. f(lower out \<mapsto> v out)) (a # g) freq
        = fold (\<lambda>out f. f(lower out \<mapsto> v out)) g (freq(lower a \<mapsto> v a))"
      by simp
    ultimately show ?thesis by (simp only: True)
  next
    case False
    with Cons.prems have "distinct (map lower g)" "out \<in> set g" by simp_all
    from Cons.IH [OF this, of "freq(lower a \<mapsto> v a)"] show ?thesis by simp
  qed
qed

lemma aggregate_double_freq:
  assumes "\<forall>(n, g) \<in> set gs. py_sum (map C g) \<noteq> Finite 0"
    and "distinct (map lower (concat (map snd gs)))"
  shows "\<exists>w' freq'. aggregate_double C gs w freq = (w', Inr freq')
     \<and> (\<forall>(n, g) \<in> set gs. \<forall>out \<in> set g.
           freq' (lower out) = Some (double_div (C out) (py_sum (map C g))))
     \<and> (\<forall>k. k \<notin> lower ` set (concat (map snd gs)) \<longrightarrow> freq' k = freq k)"
  using assms
proof (induction gs arbitrary: w freq)
  case Nil
  show ?case by simp
next
  case (Cons a gs)
  obtain n0 g0 where a: "a = (n0, g0)" by (cases a)
  let ?den = "py_sum (map C g0)"
  let ?f = "fold (\<lambda>out f. f(lower out \<mapsto> double_div (C out) ?den)) g0 freq"
  from Cons.prems(1) a have nz: "?den \<noteq> Finite 0"
    and rest: "\<forall>(n, g) \<in> set gs. py_sum (map C g) \<noteq> Finite 0" by simp_all
  from Cons.prems(2) a have d0: "distinct (map lower g0)"
    and d1: "distinct (map lower (concat (map snd gs)))"
    and d2: "lower ` set g0 \<inter> lower ` set (concat (map snd gs)) = {}"
    by auto
  from Cons.IH [OF rest d1, of "w @ warn_zero_double C g0" ?f]
  obtain w' freq' where r: "aggregate_double C gs (w @ warn_zero_double C g0) ?f = (w', Inr freq')"
    and hit: "\<forall>(n, g) \<in> set gs. \<forall>out \<in> set g.
           freq' (lower out) = Some (double_div (C out) (py_sum (map C g)))"
    and other: "\<forall>k. k \<notin> lower ` set (concat (map snd gs)) \<longrightarrow> freq' k = ?f k"
    by blast
  have run: "aggregate_double C (a # gs) w freq = (w', Inr freq')"
    using nz r by (simp add: a Let_def store_freq_double_ok)
  have here: "freq' (lower out) = Some (double_div (C out) ?den)" if "out \<in> set g0" for out
  proof -
    from that d2 have "lower out \<notin> lower ` set (concat (map snd gs))" by blast
    with other have "freq' (lower out) = ?f (lower out)" by simp
    also from fold_store_hit [OF d0 that] have "\<dots> = Some (double_div (C out) ?den)" .
    finally show ?thesis .
  qed
  have away: "freq' k = freq k" if "k \<notin> lower ` set (concat (map snd (a # gs)))" for k
  proof -
    from that a have k0: "k \<notin> lower ` set g0" and k1: "k \<notin> lower ` set (concat (map snd gs))"
      by auto
    from other k1 have "freq' k = ?f k" by simp
    with fold_store_other [OF k0] show ?thesis by simp
  qed
  from run hit here away a show ?case by auto
qed








lemma aggregate_double_warnings:
  assumes "aggregate_double C gs w freq = (w', r)"
    and "\<forall>(n, g) \<in> set gs. \<forall>out \<in> set g. C out \<noteq> Finite 0"
  shows "w' = w"
  using assms
proof (induction gs arbitrary: w freq)
  case Nil
  then show ?case by simp
next
  case (Cons a gs)
  obtain n0 g0 where a: "a = (n0, g0)" by (cases a)
  from Cons.prems(2) a have z: "\<forall>out \<in> set g0. C out \<noteq> Finite 0"
    and rest: "\<forall>(n, g) \<in> set gs. \<forall>out \<in> set g. C out \<noteq> Finite 0" by simp_all
  have "warn_zero_double C g = []" if "\<forall>out \<in> set g. C out \<noteq> Finite 0" for g
    using that by (induction g) simp_all
  from this [OF z] have nw: "w @ warn_zero_double C g0 = w" by simp
  show ?case
  proof (cases "py_sum (map C g0) = Finite 0")
    case True
    with Cons.prems(1) nw show ?thesis by (simp add: a Let_def)
  next
    case False
    from store_freq_double_ok [OF False, of C g0 freq] obtain f
      where f: "store_freq_double C (py_sum (map C g0)) g0 freq = Inr f" by blast
    with Cons.prems(1) False nw have "aggregate_double C gs w f = (w', r)"
      by (simp add: a Let_def)
    from Cons.IH [OF this rest] show ?thesis .
  qed
qed

lemma py_sum_2: "py_sum [Finite 2, Finite 2, Finite 2, Finite 2] = Finite 8"
proof -
  have f: "fl 2 = 2" "fl 4 = 4" "fl 6 = 6" "fl 8 = 8"
    by (subst fl_eval [of 1], simp_all add: py_round_def Let_def power_int_minus_divide,
        subst fl_eval [of 2], simp_all add: py_round_def Let_def power_int_minus_divide,
        subst fl_eval [of 2], simp_all add: py_round_def Let_def power_int_minus_divide,
        subst fl_eval [of 3], simp_all add: py_round_def Let_def power_int_minus_divide)
  have r: "round_to_double 2 = Finite 2" "round_to_double 4 = Finite 4"
    "round_to_double 6 = Finite 6" "round_to_double 8 = Finite 8"
    by (simp_all add: round_to_double_finite f)
  show ?thesis by (simp add: py_sum_def r)
qed

text \<open>
  Claim C10 (the code departs from it). An empty cell reaches \<^verbatim>\<open>float(val)\<close> as NaN, on
  which \<^verbatim>\<open>float\<close> succeeds: the \<^verbatim>\<open>except\<close> branch that the comment \<^verbatim>\<open># handle strings or empty\<close>
  announces is not taken and NaN is stored, not \<open>0.0\<close>. With the four cells of the basis
  HH, HV, VH, VV empty, the raw count of HH is NaN, no warning is given, the denominator
  of the basis is NaN and not 0, so no \<^verbatim>\<open>ValueError\<close> is raised, and its four frequencies
  are NaN. (A setting with no row, or with a text that \<^verbatim>\<open>float\<close> rejects, does count as 0,
  as shown above.)
\<close>

theorem empty_cells_are_stored_as_NaN:
  "C_double (read_table_double DoubleQubit_positions frame_empty_HV Map.empty) ''HH'' = NaN
   \<and> fst (DoubleQubit_freq_double frame_empty_HV) = []
   \<and> map_sum id (\<lambda>freq. map freq [''hh'', ''hv'', ''vh'', ''vv''])
        (snd (DoubleQubit_freq_double frame_empty_HV))
      = Inr [Some NaN, Some NaN, Some NaN, Some NaN]"
proof -
  let ?C = "C_double (read_table_double DoubleQubit_positions frame_empty_HV Map.empty)"
  have c: "?C = (\<lambda>q. if q \<in> set DoubleQubit_positions
      then (if q \<in> set [''HH'', ''HV'', ''VH'', ''VV''] then NaN else Finite 2) else Finite 0)"
    unfolding frame_empty_HV_def by (rule ext) (simp add: C_double_DoubleQubit_frame)
  have hh: "?C ''HH'' = NaN" unfolding c by (simp add: DoubleQubit_positions_def)
  have n: "py_sum [NaN, NaN, NaN, NaN] = NaN" by (simp add: py_sum_def)
  have s: "\<forall>(n, g) \<in> set groups. py_sum (map ?C g) = NaN \<or> py_sum (map ?C g) = Finite 8"
    unfolding c by (simp add: groups_def DoubleQubit_positions_def py_sum_2 n)
  have nz: "\<forall>(n, g) \<in> set groups. py_sum (map ?C g) \<noteq> Finite 0"
  proof
    fix x assume "x \<in> set groups"
    from bspec [OF s this] show "case x of (n, g) \<Rightarrow> py_sum (map ?C g) \<noteq> Finite 0"
      by (cases x) auto
  qed
  have nw: "\<forall>(n, g) \<in> set groups. \<forall>out \<in> set g. ?C out \<noteq> Finite 0"
    unfolding c by (simp add: groups_def DoubleQubit_positions_def)
  from aggregate_double_freq [OF nz groups_distinct, of "[]" Map.empty]
  obtain w freq where r: "aggregate_double ?C groups [] Map.empty = (w, Inr freq)"
    and hit: "\<forall>(n, g) \<in> set groups. \<forall>out \<in> set g.
           freq (lower out) = Some (double_div (?C out) (py_sum (map ?C g)))"
    by (elim exE conjE)
  from aggregate_double_warnings [OF r nw] have w: "w = []" .
  have m: "(''HV'', [''HH'', ''HV'', ''VH'', ''VV'']) \<in> set groups" by (simp add: groups_def)
  have den: "py_sum (map ?C [''HH'', ''HV'', ''VH'', ''VV'']) = NaN"
    unfolding c by (simp add: DoubleQubit_positions_def n)
  have v: "freq (lower out) = Some NaN" if "out \<in> set [''HH'', ''HV'', ''VH'', ''VV'']" for out
  proof -
    from hit m that have "freq (lower out)
        = Some (double_div (?C out) (py_sum (map ?C [''HH'', ''HV'', ''VH'', ''VV''])))"
      by blast
    moreover from that have "?C out = NaN"
      unfolding c by (auto simp add: DoubleQubit_positions_def)
    ultimately show ?thesis by (simp only: den double_div.simps)
  qed
  have l: "lower ''HH'' = ''hh''" "lower ''HV'' = ''hv''" "lower ''VH'' = ''vh''" "lower ''VV'' = ''vv''"
    by (simp_all add: lower_def lower_char_def)
  from v [of "''HH''"] v [of "''HV''"] v [of "''VH''"] v [of "''VV''"]
  have "map freq [''hh'', ''hv'', ''vh'', ''vv''] = [Some NaN, Some NaN, Some NaN, Some NaN]"
    by (simp add: l)
  with r w hh show ?thesis by (simp add: DoubleQubit_freq_double_def)
qed

section \<open>Moving the motors: a timeout is a warning\<close>















end
